theory Spec2Isabelle
  imports Complex_Main
begin

section \<open>Python values shared by the modules\<close>

text \<open>
  An \<open>Optional[str]\<close> argument is a \<open>string option\<close>. Python's truth test
  (\<open>if x:\<close>, \<open>if not x:\<close>) is false for \<open>None\<close> and for the empty string.
\<close>

definition truthy :: "string option \<Rightarrow> bool" where
  "truthy x = (case x of None \<Rightarrow> False | Some s \<Rightarrow> s \<noteq> [])"

text \<open>
  \<open>str.lower()\<close> on the ASCII range, which is all a GitHub login or an HTTP error
  body uses here: the letters A-Z move to a-z, every other character stays.
\<close>

definition lower_char :: "char \<Rightarrow> char" where
  "lower_char c =
     (let n = (of_char c :: nat) in if 65 \<le> n \<and> n \<le> 90 then char_of (n + 32) else c)"

definition str_lower :: "string \<Rightarrow> string" where
  "str_lower s = map lower_char s"

section \<open>team_mapper.py\<close>

text \<open>
  The \<open>teams\<close> entry of the YAML configuration is a dict from team name to its
  members, read in insertion order by \<open>teams.items()\<close>; a value that is not a list is
  skipped by the \<open>isinstance(members, list)\<close> test.
\<close>

datatype members_value = MemberList "string list" | NotAList

record team_config =
  cfg_default_team :: "string option"
  cfg_teams :: "(string \<times> members_value) list option"

record team_mapper =
  default_team :: string
  username_to_team :: "string \<rightharpoonup> string"

text \<open>The inner loop of \<open>__init__\<close>: \<open>username_to_team[username.lower()] = team_name\<close>.\<close>

fun add_members :: "string \<Rightarrow> string list \<Rightarrow> (string \<rightharpoonup> string) \<Rightarrow> (string \<rightharpoonup> string)" where
  "add_members team_name [] m = m"
| "add_members team_name (username # rest) m =
     add_members team_name rest (m(str_lower username \<mapsto> team_name))"

text \<open>The outer loop of \<open>__init__\<close> over \<open>teams.items()\<close>.\<close>

fun build_mapping :: "(string \<times> members_value) list \<Rightarrow> (string \<rightharpoonup> string) \<Rightarrow> (string \<rightharpoonup> string)" where
  "build_mapping [] m = m"
| "build_mapping ((team_name, MemberList members) # rest) m =
     build_mapping rest (add_members team_name members m)"
| "build_mapping ((team_name, NotAList) # rest) m = build_mapping rest m"

definition TeamMapper_init :: "team_config \<Rightarrow> team_mapper" where
  "TeamMapper_init team_config =
     \<lparr> default_team = (case cfg_default_team team_config of None \<Rightarrow> ''unassigned'' | Some d \<Rightarrow> d),
       username_to_team =
         build_mapping (case cfg_teams team_config of None \<Rightarrow> [] | Some ts \<Rightarrow> ts) Map.empty \<rparr>"

definition get_team :: "team_mapper \<Rightarrow> string option \<Rightarrow> string" where
  "get_team tm username =
     (case username of
        None \<Rightarrow> default_team tm
      | Some u \<Rightarrow>
          if \<not> truthy username then default_team tm
          else (case username_to_team tm (str_lower u) of
                  None \<Rightarrow> default_team tm
                | Some team \<Rightarrow> team))"

definition add_mapping :: "team_mapper \<Rightarrow> string \<Rightarrow> string \<Rightarrow> team_mapper" where
  "add_mapping tm username team_name =
     tm\<lparr> username_to_team := (username_to_team tm)(str_lower username \<mapsto> team_name) \<rparr>"

text \<open>
  The mapping table read as the configuration lists it: every (lower-cased member, team)
  pair, in the order \<open>__init__\<close> stores them. A later pair for the same key replaces an
  earlier one.
\<close>

fun config_pairs :: "(string \<times> members_value) list \<Rightarrow> (string \<times> string) list" where
  "config_pairs [] = []"
| "config_pairs ((team_name, MemberList members) # rest) =
     map (\<lambda>u. (str_lower u, team_name)) members @ config_pairs rest"
| "config_pairs ((team_name, NotAList) # rest) = config_pairs rest"

definition test_team_config :: team_config where
  "test_team_config =
     \<lparr> cfg_default_team = Some ''unassigned'',
       cfg_teams = Some [(''backend'', MemberList [''alice'', ''bob'']),
                         (''frontend'', MemberList [''charlie''])] \<rparr>"

section \<open>Exceptions, log records and observable events\<close>

text \<open>
  The exceptions the modules raise or receive. \<open>HTTPError\<close> carries the status code,
  \<open>RetryError\<close> is the retry library's wrapper around the last attempt's exception.
\<close>

datatype exn =
    ConnectionError
  | Timeout
  | HTTPError nat
  | JSONDecodeError
  | RateLimitError
  | RetryError exn
  | ValueError
  | AttributeError
  | TypeError
  | KeyError
  | FileNotFoundError
  | YAMLError
  | OtherException

text \<open>
  \<open>isinstance(e, requests.exceptions.RequestException)\<close>; the JSON decoding error is the
  one of the requests library, which derives from \<open>RequestException\<close>.
\<close>

fun is_request_exception :: "exn \<Rightarrow> bool" where
  "is_request_exception ConnectionError = True"
| "is_request_exception Timeout = True"
| "is_request_exception (HTTPError code) = True"
| "is_request_exception JSONDecodeError = True"
| "is_request_exception e = False"

datatype log_level = DEBUG | INFO | WARNING | ERROR

text \<open>
  The query of one commit-listing request: the \<open>params\<close> dict of \<open>get_commits\<close>. The
  keys \<open>since\<close>, \<open>until\<close> and \<open>author\<close> are present only when the argument is truthy.
\<close>

record commit_query =
  q_sha :: string
  q_per_page :: int
  q_since :: "string option"
  q_until :: "string option"
  q_author :: "string option"
  q_page :: nat

text \<open>The calls of the client's public methods, as the branch detector and collector make them.\<close>

datatype api_call =
    GetRepositoryInfo string string
  | GetCommits string string string "string option" "string option" "string option" int
  | GetCommitDetails string string string
  | TestConnection

text \<open>
  What a run does that can be observed from outside: log records (by level), the session's
  GET of the rate-limit status and its GET of a request URL, sleeps, the \<open>_make_request\<close>
  calls of \<open>get_commits\<close>, and client method calls.
\<close>

datatype event =
    Log log_level
  | RateLimitGet string
  | HttpGet string
  | Sleep real
  | MakeRequest string commit_query
  | Call api_call

section \<open>String helpers\<close>

text \<open>\<open>s.startswith(p)\<close> and \<open>needle in s\<close>.\<close>

fun starts_with :: "string \<Rightarrow> string \<Rightarrow> bool" where
  "starts_with s [] = True"
| "starts_with [] (p # ps) = False"
| "starts_with (c # s) (p # ps) = (c = p \<and> starts_with s ps)"

fun contains :: "string \<Rightarrow> string \<Rightarrow> bool" where
  "contains [] needle = (needle = [])"
| "contains (c # s) needle = (starts_with (c # s) needle \<or> contains s needle)"

text \<open>\<open>s.lstrip(ch)\<close>, \<open>s.rstrip(ch)\<close> and \<open>s.strip(ch)\<close> for a one-character argument.\<close>

definition lstrip_char :: "char \<Rightarrow> string \<Rightarrow> string" where
  "lstrip_char ch s = dropWhile (\<lambda>c. c = ch) s"

definition rstrip_char :: "char \<Rightarrow> string \<Rightarrow> string" where
  "rstrip_char ch s = rev (dropWhile (\<lambda>c. c = ch) (rev s))"

definition strip_char :: "char \<Rightarrow> string \<Rightarrow> string" where
  "strip_char ch s = rstrip_char ch (lstrip_char ch s)"

text \<open>\<open>s.strip()\<close>: white space off both ends (the ASCII white space of \<open>str.isspace\<close>).\<close>

definition is_space :: "char \<Rightarrow> bool" where
  "is_space c = (let n = (of_char c :: nat) in (9 \<le> n \<and> n \<le> 13) \<or> (28 \<le> n \<and> n \<le> 32))"

definition py_strip :: "string \<Rightarrow> string" where
  "py_strip s = rev (dropWhile is_space (rev (dropWhile is_space s)))"

text \<open>\<open>s.split(ch)\<close>: the pieces between the separators, empty pieces kept.\<close>

fun split_char :: "char \<Rightarrow> string \<Rightarrow> string list" where
  "split_char ch [] = [[]]"
| "split_char ch (c # s) =
     (if c = ch then [] # split_char ch s
      else (case split_char ch s of
              [] \<Rightarrow> [[c]]
            | piece # pieces \<Rightarrow> (c # piece) # pieces))"

text \<open>\<open>s.replace(sub, '')\<close> for a non-empty \<open>sub\<close>: every occurrence removed, left to right.\<close>

fun remove_all :: "string \<Rightarrow> string \<Rightarrow> string" where
  "remove_all sub [] = []"
| "remove_all sub (c # s) =
     (if sub \<noteq> [] \<and> starts_with (c # s) sub
      then remove_all sub (drop (length sub - 1) s)
      else c # remove_all sub s)"

section \<open>github_client.py: the transport\<close>

record github_client =
  token :: string
  api_url :: string
  timeout :: int
  max_retries :: int
  rate_limit_buffer :: int

definition GitHubAPIClient_init :: "string \<Rightarrow> string \<Rightarrow> int \<Rightarrow> int \<Rightarrow> int \<Rightarrow> github_client" where
  "GitHubAPIClient_init tok url tmo retries buffer =
     \<lparr> token = tok, api_url = rstrip_char (CHR ''/'') url, timeout = tmo,
       max_retries = retries, rate_limit_buffer = buffer \<rparr>"

text \<open>
  An HTTP response as the code reads it: the status code, the body text, and what
  \<open>response.json()\<close> gives (\<open>Inl\<close> the exception it raises). For the rate-limit endpoint the
  JSON is read as the pair \<open>resources.core.remaining\<close>, \<open>resources.core.reset\<close>, and a
  missing key is the \<open>Inl\<close> case as well.
\<close>

record 'j response =
  status_code :: nat
  body_text :: string
  json_body :: "exn + 'j"

text \<open>\<open>response.raise_for_status()\<close> raises for a 4xx or 5xx status.\<close>

definition raises_for_status :: "'j response \<Rightarrow> bool" where
  "raises_for_status r = (400 \<le> status_code r \<and> status_code r < 600)"

text \<open>
  \<open>_check_rate_limit\<close>. \<open>rl\<close> is the outcome of the GET of \<open>/rate_limit\<close> (\<open>Inl\<close> what
  \<open>session.get\<close> raises), \<open>now\<close> is what \<open>time.time()\<close> returns. Every exception is caught
  and logged as a warning; the function returns only the events it caused.

  When the quota is short the reset time is first turned into a date by
  \<open>datetime.fromtimestamp\<close>, which raises for a timestamp whose local date lies outside
  the years 1 to 9999 (\<open>ValueError\<close>, or \<open>OverflowError\<close> or \<open>OSError\<close> where the platform's
  \<open>localtime\<close> gives up first); every one of them is an \<open>Exception\<close> and ends in the
  \<open>except\<close> clause. The local time zone is taken to be UTC. The lower bound is one day
  after 0001-01-01 00:00:00, since the conversion also looks at the time 24 hours earlier;
  the upper bound is 9999-12-31 23:59:59.
\<close>

definition fromtimestamp_accepts :: "int \<Rightarrow> bool" where
  "fromtimestamp_accepts t = (- 62135510400 \<le> t \<and> t \<le> 253402300799)"

definition check_rate_limit :: "github_client \<Rightarrow> exn + (int \<times> int) response \<Rightarrow> real \<Rightarrow> event list" where
  "check_rate_limit self rl now =
     RateLimitGet (api_url self @ ''/rate_limit'') #
     (case rl of
        Inl e \<Rightarrow> [Log WARNING]
      | Inr r \<Rightarrow>
          if raises_for_status r then [Log WARNING]
          else (case json_body r of
                  Inl e \<Rightarrow> [Log WARNING]
                | Inr (remaining, reset_time) \<Rightarrow>
                    Log DEBUG #
                    (if remaining \<le> rate_limit_buffer self then
                       (if fromtimestamp_accepts reset_time then
                          (let wait_seconds = real_of_int reset_time - now + 1
                           in if wait_seconds > 0 then [Log WARNING, Sleep wait_seconds] else [])
                        else [Log WARNING])
                     else [])))"

text \<open>What one attempt of \<open>_make_request\<close> meets: the rate-limit answer, the clock, the answer to the request.\<close>

record 'j attempt_env =
  rate_limit_response :: "exn + (int \<times> int) response"
  clock :: real
  api_response :: "exn + 'j response"

definition request_url :: "github_client \<Rightarrow> string \<Rightarrow> string" where
  "request_url self endpoint = api_url self @ ''/'' @ lstrip_char (CHR ''/'') endpoint"

text \<open>
  The body of \<open>_make_request\<close>, one attempt. The two \<open>except\<close> clauses log and re-raise, so
  every exception of the \<open>try\<close> block leaves the attempt.
\<close>

definition make_request_once :: "github_client \<Rightarrow> 'j attempt_env \<Rightarrow> string \<Rightarrow> (exn + 'j) \<times> event list" where
  "make_request_once self env endpoint =
     (let checked = check_rate_limit self (rate_limit_response env) (clock env);
          url = request_url self endpoint
      in case api_response env of
           Inl e \<Rightarrow>
             (Inl e, checked @ [HttpGet url] @ (if is_request_exception e then [Log ERROR] else []))
         | Inr r \<Rightarrow>
             if status_code r = 403 \<and> contains (str_lower (body_text r)) ''rate limit''
             then (Inl RateLimitError, checked @ [HttpGet url])
             else if raises_for_status r
             then (Inl (HTTPError (status_code r)), checked @ [HttpGet url, Log ERROR])
             else (case json_body r of
                     Inl e \<Rightarrow>
                       (Inl e, checked @ [HttpGet url] @ (if is_request_exception e then [Log ERROR] else []))
                   | Inr j \<Rightarrow> (Inr j, checked @ [HttpGet url])))"

text \<open>
  The retry decorator of \<open>_make_request\<close> comes from the tenacity library. Its loop: call
  the function; return its value; an exception the \<open>retry\<close> predicate rejects is raised
  as it is; otherwise, when \<open>stop_after_attempt(stop)\<close> says stop (the attempt number has
  reached \<open>stop\<close>), raise \<open>RetryError\<close>; otherwise sleep for the wait and try again.
\<close>

function retry_call ::
  "nat \<Rightarrow> (nat \<Rightarrow> real) \<Rightarrow> (exn \<Rightarrow> bool) \<Rightarrow> (nat \<Rightarrow> (exn + 'a) \<times> event list) \<Rightarrow> nat
     \<Rightarrow> (exn + 'a) \<times> event list" where
  "retry_call stop wait retry_if attempt n =
     (case attempt n of
        (Inr v, tr) \<Rightarrow> (Inr v, tr)
      | (Inl e, tr) \<Rightarrow>
          if \<not> retry_if e then (Inl e, tr)
          else if stop \<le> n then (Inl (RetryError e), tr)
          else (case retry_call stop wait retry_if attempt (Suc n) of
                  (r, tr') \<Rightarrow> (r, tr @ [Sleep (wait n)] @ tr')))"
  by pat_completeness auto
termination
  by (relation "measure (\<lambda>(stop, wait, retry_if, attempt, n). stop - n)") auto

declare retry_call.simps [simp del]

text \<open>\<open>wait_exponential(multiplier, min, max)\<close> of the same library, for attempt \<open>n\<close>.\<close>

definition wait_exponential :: "real \<Rightarrow> real \<Rightarrow> real \<Rightarrow> nat \<Rightarrow> real" where
  "wait_exponential multiplier lo hi n = max (max 0 lo) (min (multiplier * 2 ^ (n - 1)) hi)"

definition retry_if_exception_type :: "exn \<Rightarrow> bool" where
  "retry_if_exception_type e = (is_request_exception e \<or> e = RateLimitError)"

text \<open>
  \<open>_make_request\<close> under its decorator: \<open>stop_after_attempt(3)\<close>,
  \<open>wait_exponential(multiplier=1, min=2, max=10)\<close>. \<open>world n\<close> is what attempt \<open>n\<close> meets.
\<close>

definition make_request :: "github_client \<Rightarrow> (nat \<Rightarrow> 'j attempt_env) \<Rightarrow> string \<Rightarrow> (exn + 'j) \<times> event list" where
  "make_request self world endpoint =
     retry_call 3 (wait_exponential 1 2 10) retry_if_exception_type
       (\<lambda>n. make_request_once self (world n) endpoint) 1"

text \<open>The number of times the request itself was sent.\<close>

definition attempts_made :: "github_client \<Rightarrow> string \<Rightarrow> event list \<Rightarrow> nat" where
  "attempts_made self endpoint tr = length (filter (\<lambda>ev. ev = HttpGet (request_url self endpoint)) tr)"

definition sleeps_of :: "event list \<Rightarrow> real list" where
  "sleeps_of tr = concat (map (\<lambda>ev. case ev of Sleep d \<Rightarrow> [d] | _ \<Rightarrow> []) tr)"

section \<open>github_client.py: listing commits\<close>

definition commit_params ::
  "string \<Rightarrow> string option \<Rightarrow> string option \<Rightarrow> string option \<Rightarrow> int \<Rightarrow> nat \<Rightarrow> commit_query" where
  "commit_params branch since until author per_page page =
     \<lparr> q_sha = branch, q_per_page = min per_page 100,
       q_since = (if truthy since then since else None),
       q_until = (if truthy until then until else None),
       q_author = (if truthy author then author else None),
       q_page = page \<rparr>"

text \<open>
  The \<open>while True\<close> loop of \<open>get_commits\<close>. \<open>make_req endpoint params\<close> is what
  \<open>self._make_request(endpoint, params)\<close> returns or raises; within one call every page
  number is asked for once. The loop has no bound of its own, so the model is a partial
  function: \<open>None\<close> stands for a call that never returns.
\<close>

partial_function (option) get_commits_loop ::
  "(string \<Rightarrow> commit_query \<Rightarrow> exn + 'c list) \<Rightarrow> string \<Rightarrow> (nat \<Rightarrow> commit_query) \<Rightarrow> int
     \<Rightarrow> nat \<Rightarrow> 'c list \<Rightarrow> event list \<Rightarrow> ((exn + 'c list) \<times> event list) option" where
  "get_commits_loop make_req endpoint params per_page page all_commits tr =
     (case make_req endpoint (params page) of
        Inl e \<Rightarrow> Some (Inl e, tr @ [MakeRequest endpoint (params page)])
      | Inr commits \<Rightarrow>
          if commits = []
          then Some (Inr all_commits, tr @ [MakeRequest endpoint (params page), Log INFO])
          else if int (length commits) < per_page
          then Some (Inr (all_commits @ commits),
                     tr @ [MakeRequest endpoint (params page), Log DEBUG, Log INFO])
          else get_commits_loop make_req endpoint params per_page (page + 1)
                 (all_commits @ commits) (tr @ [MakeRequest endpoint (params page), Log DEBUG]))"

definition commits_endpoint :: "string \<Rightarrow> string \<Rightarrow> string" where
  "commits_endpoint owner repo = ''repos/'' @ owner @ ''/'' @ repo @ ''/commits''"

definition get_commits ::
  "(string \<Rightarrow> commit_query \<Rightarrow> exn + 'c list) \<Rightarrow> string \<Rightarrow> string \<Rightarrow> string
     \<Rightarrow> string option \<Rightarrow> string option \<Rightarrow> string option \<Rightarrow> int
     \<Rightarrow> ((exn + 'c list) \<times> event list) option" where
  "get_commits make_req owner repo branch since until author per_page =
     get_commits_loop make_req (commits_endpoint owner repo)
       (commit_params branch since until author per_page) per_page 1 [] [Log INFO]"

text \<open>The page numbers asked for, in order.\<close>

definition pages_requested :: "event list \<Rightarrow> nat list" where
  "pages_requested tr = concat (map (\<lambda>ev. case ev of MakeRequest ep q \<Rightarrow> [q_page q] | _ \<Rightarrow> []) tr)"

text \<open>
  A server that answers page \<open>p\<close> with a page of the \<open>p\<close>-th size of a list of sizes, and
  with an empty page beyond the list.
\<close>

definition pages_of_sizes :: "nat list \<Rightarrow> string \<Rightarrow> commit_query \<Rightarrow> exn + nat list" where
  "pages_of_sizes sizes endpoint q =
     (if 1 \<le> q_page q \<and> q_page q \<le> length sizes
      then Inr (replicate (sizes ! (q_page q - 1)) (q_page q)) else Inr [])"

text \<open>
  The claim's reading of the loop, for a server that answers every page: page \<open>p\<close> ends
  the listing when it is empty or shorter than the page size.
\<close>

definition last_page :: "int \<Rightarrow> 'c list \<Rightarrow> bool" where
  "last_page per_page commits = (commits = [] \<or> int (length commits) < per_page)"

section \<open>The client's answers, as the branch detector and the collector read them\<close>

text \<open>
  The JSON objects of the API, with the keys the code reads. A key that is absent is
  \<open>None\<close>. \<open>cj_author\<close> is \<open>None\<close> when the key is absent or its value is falsy (null for
  a commit without a GitHub account). \<open>cj_other_keys\<close> says whether the object has keys
  besides the ones read: an object with no key at all is the falsy \<open>{}\<close>.
\<close>

record repo_info_json =
  ri_default_branch :: "string option"
  ri_html_url :: "string option"

record user_json =
  login :: "string option"

record git_author_json =
  ga_name :: "string option"
  ga_email :: "string option"
  ga_date :: "string option"

record git_commit_json =
  gc_author :: "git_author_json option"
  gc_message :: "string option"

record stats_json =
  st_additions :: "int option"
  st_deletions :: "int option"
  st_total :: "int option"

record file_json =
  fj_filename :: "string option"
  fj_status :: "string option"
  fj_additions :: "int option"
  fj_deletions :: "int option"
  fj_changes :: "int option"
  fj_patch :: "string option"

record commit_json =
  cj_sha :: "string option"
  cj_commit :: "git_commit_json option"
  cj_author :: "user_json option"
  cj_stats :: "stats_json option"
  cj_files :: "file_json list option"
  cj_html_url :: "string option"
  cj_other_keys :: bool

definition empty_commit_json :: commit_json where
  "empty_commit_json =
     \<lparr> cj_sha = None, cj_commit = None, cj_author = None, cj_stats = None, cj_files = None,
       cj_html_url = None, cj_other_keys = False \<rparr>"

definition dict_truthy :: "commit_json \<Rightarrow> bool" where
  "dict_truthy d = (d \<noteq> empty_commit_json)"

text \<open>
  The GitHub service behind the client's public methods: what each method returns or
  raises for its arguments (\<open>get_commits\<close> with owner, repository, branch, since, until,
  author and page size). A call is taken to return.
\<close>

record github =
  repository_info_of :: "string \<Rightarrow> string \<Rightarrow> exn + repo_info_json"
  commits_of :: "string \<Rightarrow> string \<Rightarrow> string \<Rightarrow> string option \<Rightarrow> string option \<Rightarrow> string option \<Rightarrow> int
                   \<Rightarrow> exn + commit_json list"
  commit_details_of :: "string \<Rightarrow> string \<Rightarrow> string \<Rightarrow> exn + commit_json"
  connection_ok :: bool

text \<open>
  The state a run threads through the detector and the collector: the detector's
  \<open>_branch_cache\<close> and the events so far.
\<close>

record run_state =
  branch_cache :: "string \<rightharpoonup> string"
  trace :: "event list"

definition emit :: "event list \<Rightarrow> run_state \<Rightarrow> run_state" where
  "emit evs s = s\<lparr> trace := trace s @ evs \<rparr>"

definition api_calls :: "event list \<Rightarrow> api_call list" where
  "api_calls tr = concat (map (\<lambda>ev. case ev of Call c \<Rightarrow> [c] | _ \<Rightarrow> []) tr)"

definition warnings_logged :: "event list \<Rightarrow> nat" where
  "warnings_logged tr = length (filter (\<lambda>ev. ev = Log WARNING) tr)"

section \<open>branch_detector.py\<close>

definition cache_key :: "string \<Rightarrow> string \<Rightarrow> string" where
  "cache_key owner repo = owner @ ''/'' @ repo"

text \<open>
  Every method returns \<open>Inl\<close> for an exception that leaves it and \<open>Inr\<close> for its value,
  next to the new state.
\<close>

definition detect_default_branch ::
  "github \<Rightarrow> run_state \<Rightarrow> string \<Rightarrow> string \<Rightarrow> (exn + string) \<times> run_state" where
  "detect_default_branch gh s owner repo =
     (case branch_cache s (cache_key owner repo) of
        Some cached \<Rightarrow> (Inr cached, emit [Log DEBUG] s)
      | None \<Rightarrow>
          (case repository_info_of gh owner repo of
             Inr repo_info \<Rightarrow>
               (let found = (case ri_default_branch repo_info of None \<Rightarrow> ''main'' | Some b \<Rightarrow> b)
                in (Inr found,
                    (emit [Call (GetRepositoryInfo owner repo), Log INFO] s)
                      \<lparr> branch_cache := (branch_cache s)(cache_key owner repo \<mapsto> found) \<rparr>))
           | Inl e \<Rightarrow>
               (Inr ''main'', emit [Call (GetRepositoryInfo owner repo), Log WARNING, Log INFO] s)))"

definition validate_branch ::
  "github \<Rightarrow> run_state \<Rightarrow> string \<Rightarrow> string \<Rightarrow> string \<Rightarrow> (exn + bool) \<times> run_state" where
  "validate_branch gh s owner repo branch =
     (case commits_of gh owner repo branch None None None 1 of
        Inr commits \<Rightarrow>
          (Inr (length commits > 0), emit [Call (GetCommits owner repo branch None None None 1)] s)
      | Inl e \<Rightarrow>
          (Inr False, emit [Call (GetCommits owner repo branch None None None 1), Log DEBUG] s))"

definition common_branches :: "string list" where
  "common_branches = [''main'', ''master'', ''develop'', ''trunk'']"

text \<open>Step 1 of \<open>get_branch_with_fallback\<close>: \<open>Some\<close> the preferred branch when it is returned.\<close>

definition try_preferred ::
  "github \<Rightarrow> run_state \<Rightarrow> string \<Rightarrow> string \<Rightarrow> string option \<Rightarrow> (exn + string option) \<times> run_state" where
  "try_preferred gh s owner repo preferred_branch =
     (case preferred_branch of
        None \<Rightarrow> (Inr None, s)
      | Some p \<Rightarrow>
          if \<not> truthy preferred_branch then (Inr None, s)
          else (case validate_branch gh (emit [Log DEBUG] s) owner repo p of
                  (Inl e, s1) \<Rightarrow> (Inl e, s1)
                | (Inr ok, s1) \<Rightarrow>
                    if ok then (Inr (Some p), emit [Log INFO] s1)
                    else (Inr None, emit [Log WARNING] s1)))"

text \<open>Step 3, the \<open>for branch in common_branches\<close> loop: \<open>Some\<close> the branch it returns.\<close>

fun try_common_branches ::
  "github \<Rightarrow> run_state \<Rightarrow> string \<Rightarrow> string \<Rightarrow> string \<Rightarrow> string list
     \<Rightarrow> (exn + string option) \<times> run_state" where
  "try_common_branches gh s owner repo tried [] = (Inr None, s)"
| "try_common_branches gh s owner repo tried (branch # rest) =
     (if branch = tried then try_common_branches gh s owner repo tried rest
      else (case validate_branch gh (emit [Log DEBUG] s) owner repo branch of
              (Inl e, s1) \<Rightarrow> (Inl e, s1)
            | (Inr ok, s1) \<Rightarrow>
                if ok
                then (Inr (Some branch),
                      (emit [Log INFO] s1)
                        \<lparr> branch_cache := (branch_cache s1)(cache_key owner repo \<mapsto> branch) \<rparr>)
                else try_common_branches gh s1 owner repo tried rest))"

definition get_branch_with_fallback ::
  "github \<Rightarrow> run_state \<Rightarrow> string \<Rightarrow> string \<Rightarrow> string option \<Rightarrow> (exn + string) \<times> run_state" where
  "get_branch_with_fallback gh s owner repo preferred_branch =
     (case try_preferred gh s owner repo preferred_branch of
        (Inl e, s1) \<Rightarrow> (Inl e, s1)
      | (Inr (Some p), s1) \<Rightarrow> (Inr p, s1)
      | (Inr None, s1) \<Rightarrow>
          (case detect_default_branch gh (emit [Log DEBUG] s1) owner repo of
             (Inl e, s2) \<Rightarrow> (Inl e, s2)
           | (Inr found, s2) \<Rightarrow>
               (case validate_branch gh s2 owner repo found of
                  (Inl e, s3) \<Rightarrow> (Inl e, s3)
                | (Inr ok, s3) \<Rightarrow>
                    if ok then (Inr found, emit [Log INFO] s3)
                    else (case try_common_branches gh s3 owner repo found common_branches of
                            (Inl e, s4) \<Rightarrow> (Inl e, s4)
                          | (Inr (Some b), s4) \<Rightarrow> (Inr b, s4)
                          | (Inr None, s4) \<Rightarrow> (Inr ''main'', emit [Log WARNING] s4)))))"

definition clear_cache :: "run_state \<Rightarrow> run_state" where
  "clear_cache s = (emit [Log DEBUG] s)\<lparr> branch_cache := Map.empty \<rparr>"

text \<open>The operations of one \<open>BranchDetector\<close> instance, and a sequence of them run in order.\<close>

datatype detector_op =
    OpDetect string string
  | OpValidate string string string
  | OpFallback string string "string option"
  | OpClearCache

fun run_op :: "github \<Rightarrow> run_state \<Rightarrow> detector_op \<Rightarrow> run_state" where
  "run_op gh s (OpDetect owner repo) = snd (detect_default_branch gh s owner repo)"
| "run_op gh s (OpValidate owner repo branch) = snd (validate_branch gh s owner repo branch)"
| "run_op gh s (OpFallback owner repo preferred) = snd (get_branch_with_fallback gh s owner repo preferred)"
| "run_op gh s OpClearCache = clear_cache s"

definition run_ops :: "github \<Rightarrow> run_state \<Rightarrow> detector_op list \<Rightarrow> run_state" where
  "run_ops gh s ops = foldl (run_op gh) s ops"

text \<open>
  The priority chain in the words of the specification. \<open>valid\<close> says which branch names
  validate, \<open>found\<close> is the detected default, \<open>given\<close> says whether a preferred branch
  \<open>p\<close> counts as given.
\<close>

definition branch_validates :: "github \<Rightarrow> string \<Rightarrow> string \<Rightarrow> string \<Rightarrow> bool" where
  "branch_validates gh owner repo b =
     (case commits_of gh owner repo b None None None 1 of Inr commits \<Rightarrow> commits \<noteq> [] | Inl e \<Rightarrow> False)"

definition detected_default :: "github \<Rightarrow> run_state \<Rightarrow> string \<Rightarrow> string \<Rightarrow> string" where
  "detected_default gh s owner repo =
     (case branch_cache s (cache_key owner repo) of
        Some cached \<Rightarrow> cached
      | None \<Rightarrow>
          (case repository_info_of gh owner repo of
             Inr repo_info \<Rightarrow> (case ri_default_branch repo_info of None \<Rightarrow> ''main'' | Some b \<Rightarrow> b)
           | Inl e \<Rightarrow> ''main''))"

definition priority_chain :: "(string \<Rightarrow> bool) \<Rightarrow> string \<Rightarrow> bool \<Rightarrow> string \<Rightarrow> string" where
  "priority_chain valid found given p =
     (if given \<and> valid p then p
      else if valid found then found
      else (case find valid (filter (\<lambda>b. b \<noteq> found) common_branches) of
              Some b \<Rightarrow> b
            | None \<Rightarrow> ''main''))"

section \<open>models.py and commit_processor.py\<close>

record FileChange =
  filename :: string
  status :: string
  additions :: int
  deletions :: int
  changes :: int
  patch :: "string option"

record CommitData =
  repository_name :: string
  repository_owner :: string
  repository_url :: string
  commit_sha :: string
  commit_message :: string
  commit_date :: int
  commit_url :: string
  author_name :: string
  author_username :: "string option"
  author_email :: string
  team_name :: string
  total_additions :: int
  total_deletions :: int
  total_changes :: int
  files_changed_count :: nat
  branch_name :: string
  file_changes :: "FileChange list"

text \<open>
  The processor holds the team mapper. The date parser of the dateutil library
  (\<open>None\<close> where it raises) and the clock that \<open>datetime.now()\<close> reads are taken as
  given; a date is a number. The processor's own log records are left out of the trace.
\<close>

record commit_processor =
  cp_team_mapper :: team_mapper
  cp_parse_date :: "string \<Rightarrow> int option"
  cp_now :: int

definition process_file_changes :: "file_json list \<Rightarrow> FileChange list" where
  "process_file_changes files_data =
     map (\<lambda>file_data.
            \<lparr> filename = (case fj_filename file_data of None \<Rightarrow> [] | Some v \<Rightarrow> v),
              status = (case fj_status file_data of None \<Rightarrow> ''modified'' | Some v \<Rightarrow> v),
              additions = (case fj_additions file_data of None \<Rightarrow> 0 | Some v \<Rightarrow> v),
              deletions = (case fj_deletions file_data of None \<Rightarrow> 0 | Some v \<Rightarrow> v),
              changes = (case fj_changes file_data of None \<Rightarrow> 0 | Some v \<Rightarrow> v),
              patch = fj_patch file_data \<rparr>)
         files_data"

definition process_commit ::
  "commit_processor \<Rightarrow> commit_json \<Rightarrow> string \<Rightarrow> string \<Rightarrow> string \<Rightarrow> string \<Rightarrow> commit_json option
     \<Rightarrow> exn + CommitData" where
  "process_commit self raw repo_owner repo_name repo_url br detailed_data =
     (let data = (case detailed_data of
                    None \<Rightarrow> raw
                  | Some d \<Rightarrow> if dict_truthy d then d else raw);
          commit_info = (case cj_commit data of
                           None \<Rightarrow> \<lparr> gc_author = None, gc_message = None \<rparr>
                         | Some ci \<Rightarrow> ci);
          author_info = (case gc_author commit_info of
                           None \<Rightarrow> \<lparr> ga_name = None, ga_email = None, ga_date = None \<rparr>
                         | Some a \<Rightarrow> a);
          name = (case ga_name author_info of None \<Rightarrow> ''Unknown'' | Some v \<Rightarrow> v);
          email = (case ga_email author_info of None \<Rightarrow> [] | Some v \<Rightarrow> v);
          username = (case cj_author data of None \<Rightarrow> None | Some u \<Rightarrow> login u);
          team = get_team (cp_team_mapper self) username;
          commit_date_str = (case ga_date author_info of None \<Rightarrow> [] | Some v \<Rightarrow> v);
          date = (case cp_parse_date self commit_date_str of None \<Rightarrow> cp_now self | Some d \<Rightarrow> d);
          stats = (case cj_stats data of
                     None \<Rightarrow> \<lparr> st_additions = None, st_deletions = None, st_total = None \<rparr>
                   | Some st \<Rightarrow> st);
          adds = (case st_additions stats of None \<Rightarrow> 0 | Some v \<Rightarrow> v);
          dels = (case st_deletions stats of None \<Rightarrow> 0 | Some v \<Rightarrow> v);
          total = (case st_total stats of None \<Rightarrow> adds + dels | Some v \<Rightarrow> v);
          fcs = process_file_changes (case cj_files data of None \<Rightarrow> [] | Some fs \<Rightarrow> fs)
      in Inr \<lparr> repository_name = repo_name,
               repository_owner = repo_owner,
               repository_url = repo_url,
               commit_sha = (case cj_sha data of None \<Rightarrow> [] | Some v \<Rightarrow> v),
               commit_message = (case gc_message commit_info of None \<Rightarrow> [] | Some v \<Rightarrow> v),
               commit_date = date,
               commit_url = (case cj_html_url data of None \<Rightarrow> [] | Some v \<Rightarrow> v),
               author_name = name,
               author_username = username,
               author_email = email,
               team_name = team,
               total_additions = adds,
               total_deletions = dels,
               total_changes = total,
               files_changed_count = length fcs,
               branch_name = br,
               file_changes = fcs \<rparr>)"

text \<open>
  \<open>process_commits_batch\<close>. The dict \<open>detailed_commits\<close> is a list of (sha, detail) pairs
  with the latest assignment first; \<open>map_of\<close> is its \<open>get\<close>. An empty dict is falsy. A
  commit whose processing raises is skipped.
\<close>

fun process_commits_batch ::
  "commit_processor \<Rightarrow> commit_json list \<Rightarrow> string \<Rightarrow> string \<Rightarrow> string \<Rightarrow> string
     \<Rightarrow> (string \<times> commit_json) list \<Rightarrow> CommitData list" where
  "process_commits_batch self [] repo_owner repo_name repo_url br detailed_commits = []"
| "process_commits_batch self (raw # rest) repo_owner repo_name repo_url br detailed_commits =
     (let detailed = (if detailed_commits \<noteq> []
                      then (case cj_sha raw of None \<Rightarrow> None | Some sha \<Rightarrow> map_of detailed_commits sha)
                      else None)
      in case process_commit self raw repo_owner repo_name repo_url br detailed of
           Inr commit_obj \<Rightarrow>
             commit_obj # process_commits_batch self rest repo_owner repo_name repo_url br detailed_commits
         | Inl e \<Rightarrow> process_commits_batch self rest repo_owner repo_name repo_url br detailed_commits)"

section \<open>data_collector.py\<close>

text \<open>
  The collector holds the client (here the service behind it), the processor and its two
  flags. \<open>self.branch_detector\<close> exists exactly when \<open>auto_detect_branch\<close> is set.
  \<open>urlparse_path url\<close> is \<open>urlparse(url).path\<close> of the standard library.
\<close>

record data_collector =
  dc_github :: github
  dc_commit_processor :: commit_processor
  fetch_detailed_commits :: bool
  auto_detect_branch :: bool
  urlparse_path :: "string \<Rightarrow> string"

definition parse_repo_url :: "data_collector \<Rightarrow> string option \<Rightarrow> exn + (string \<times> string)" where
  "parse_repo_url self url_arg =
     (case url_arg of
        None \<Rightarrow> Inl AttributeError
      | Some given \<Rightarrow>
          (let url = rstrip_char (CHR ''/'') (py_strip given);
               path = (if starts_with url ''http''
                       then Some (strip_char (CHR ''/'') (urlparse_path self url))
                       else if CHR ''/'' \<in> set url then Some url
                       else None)
           in case path of
                None \<Rightarrow> Inl ValueError
              | Some pth \<Rightarrow>
                  (let parts = split_char (CHR ''/'') pth
                   in if length parts \<ge> 2
                      then Inr (parts ! (length parts - 2), remove_all ''.git'' (last parts))
                      else Inl ValueError)))"

text \<open>
  The loop that fetches the detail of each listed commit: \<open>i\<close> counts from 1, a commit
  without a truthy \<open>sha\<close> is passed over, a fetch that raises is logged as a warning and
  leaves the dict as it is.
\<close>

fun fetch_details ::
  "github \<Rightarrow> string \<Rightarrow> string \<Rightarrow> nat \<Rightarrow> commit_json list \<Rightarrow> (string \<times> commit_json) list \<Rightarrow> run_state
     \<Rightarrow> (string \<times> commit_json) list \<times> run_state" where
  "fetch_details gh owner repo i [] detailed_commits s = (detailed_commits, s)"
| "fetch_details gh owner repo i (commit # rest) detailed_commits s =
     (if truthy (cj_sha commit)
      then (case cj_sha commit of
              None \<Rightarrow> fetch_details gh owner repo (i + 1) rest detailed_commits s
            | Some sha \<Rightarrow>
                (case commit_details_of gh owner repo sha of
                   Inr detailed \<Rightarrow>
                     fetch_details gh owner repo (i + 1) rest ((sha, detailed) # detailed_commits)
                       (emit (Call (GetCommitDetails owner repo sha) #
                              (if i mod 10 = 0 then [Log DEBUG] else [])) s)
                 | Inl e \<Rightarrow>
                     fetch_details gh owner repo (i + 1) rest detailed_commits
                       (emit [Call (GetCommitDetails owner repo sha), Log WARNING] s)))
      else fetch_details gh owner repo (i + 1) rest detailed_commits s)"

text \<open>The branch decision at the head of \<open>collect_repository_commits\<close>.\<close>

definition resolve_branch ::
  "data_collector \<Rightarrow> run_state \<Rightarrow> string \<Rightarrow> string \<Rightarrow> string option \<Rightarrow> (exn + string) \<times> run_state" where
  "resolve_branch self s owner repo br =
     (case br of
        None \<Rightarrow>
          if auto_detect_branch self
          then (case detect_default_branch (dc_github self) s owner repo of
                  (Inl e, s1) \<Rightarrow> (Inl e, s1)
                | (Inr b, s1) \<Rightarrow> (Inr b, emit [Log INFO] s1))
          else (Inr ''main'', emit [Log INFO] s)
      | Some b \<Rightarrow>
          if auto_detect_branch self
          then get_branch_with_fallback (dc_github self) s owner repo (Some b)
          else (Inr b, s))"

text \<open>
  The \<open>try\<close> block of \<open>collect_repository_commits\<close>; \<open>get_commits\<close> is called with its
  default page size of 100.
\<close>

definition collect_repository_commits_body ::
  "data_collector \<Rightarrow> run_state \<Rightarrow> string option \<Rightarrow> string option \<Rightarrow> string option \<Rightarrow> string option
     \<Rightarrow> string option \<Rightarrow> (exn + CommitData list) \<times> run_state" where
  "collect_repository_commits_body self s repo_url br date_from date_to author =
     (case parse_repo_url self repo_url of
        Inl e \<Rightarrow> (Inl e, s)
      | Inr (owner, repo) \<Rightarrow>
          (case resolve_branch self s owner repo br of
             (Inl e, s1) \<Rightarrow> (Inl e, s1)
           | (Inr b, s1) \<Rightarrow>
               (case repository_info_of (dc_github self) owner repo of
                  Inl e \<Rightarrow> (Inl e, emit [Log INFO, Call (GetRepositoryInfo owner repo)] s1)
                | Inr repo_info \<Rightarrow>
                    (let full_repo_url = (case ri_html_url repo_info of
                                            None \<Rightarrow> (case repo_url of None \<Rightarrow> [] | Some u \<Rightarrow> u)
                                          | Some u \<Rightarrow> u);
                         s2 = emit [Log INFO, Call (GetRepositoryInfo owner repo),
                                    Call (GetCommits owner repo b date_from date_to author 100)] s1
                     in case commits_of (dc_github self) owner repo b date_from date_to author 100 of
                          Inl e \<Rightarrow> (Inl e, s2)
                        | Inr commits \<Rightarrow>
                            if commits = [] then (Inr [], emit [Log WARNING] s2)
                            else (case (if fetch_detailed_commits self
                                        then fetch_details (dc_github self) owner repo 1 commits []
                                               (emit [Log INFO] s2)
                                        else ([], s2)) of
                                    (detailed_commits, s3) \<Rightarrow>
                                      (Inr (process_commits_batch (dc_commit_processor self) commits
                                              owner repo full_repo_url b detailed_commits),
                                       emit [Log INFO] s3))))))"

text \<open>\<open>collect_repository_commits\<close>: the \<open>except\<close> clause logs the error and raises it again.\<close>

definition collect_repository_commits ::
  "data_collector \<Rightarrow> run_state \<Rightarrow> string option \<Rightarrow> string option \<Rightarrow> string option \<Rightarrow> string option
     \<Rightarrow> string option \<Rightarrow> (exn + CommitData list) \<times> run_state" where
  "collect_repository_commits self s repo_url br date_from date_to author =
     (case collect_repository_commits_body self s repo_url br date_from date_to author of
        (Inl e, s1) \<Rightarrow> (Inl e, emit [Log ERROR] s1)
      | (Inr commits, s1) \<Rightarrow> (Inr commits, s1))"

text \<open>
  A repository entry of the configuration: the keys \<open>url\<close>, \<open>branch\<close>, \<open>filters\<close> and
  \<open>enabled\<close>, each possibly absent. A filter dict maps a key to its value, which may be
  null.
\<close>

record repo_config =
  rc_url :: "string option"
  rc_branch :: "string option"
  rc_filters :: "(string \<rightharpoonup> string option) option"
  rc_enabled :: "bool option"

definition dict_get :: "(string \<rightharpoonup> string option) \<Rightarrow> string \<Rightarrow> string option" where
  "dict_get d k = (case d k of None \<Rightarrow> None | Some v \<Rightarrow> v)"

text \<open>The body of the loop of \<open>collect_multiple_repositories\<close>, inside its \<open>try\<close>.\<close>

definition collect_one ::
  "data_collector \<Rightarrow> run_state \<Rightarrow> (string \<rightharpoonup> string option) \<Rightarrow> repo_config
     \<Rightarrow> (exn + CommitData list) \<times> run_state" where
  "collect_one self s global_filters rc =
     (let filters = global_filters ++ (case rc_filters rc of None \<Rightarrow> Map.empty | Some f \<Rightarrow> f)
      in collect_repository_commits self s (rc_url rc) (rc_branch rc)
           (dict_get filters ''date_from'') (dict_get filters ''date_to'') (dict_get filters ''author''))"

fun collect_loop ::
  "data_collector \<Rightarrow> run_state \<Rightarrow> (string \<rightharpoonup> string option) \<Rightarrow> repo_config list \<Rightarrow> CommitData list
     \<Rightarrow> CommitData list \<times> run_state" where
  "collect_loop self s global_filters [] all_commits = (all_commits, s)"
| "collect_loop self s global_filters (rc # rest) all_commits =
     (case collect_one self s global_filters rc of
        (Inr commits, s1) \<Rightarrow> collect_loop self s1 global_filters rest (all_commits @ commits)
      | (Inl e, s1) \<Rightarrow> collect_loop self (emit [Log ERROR] s1) global_filters rest all_commits)"

definition collect_multiple_repositories ::
  "data_collector \<Rightarrow> run_state \<Rightarrow> repo_config list \<Rightarrow> (string \<rightharpoonup> string option) option
     \<Rightarrow> (exn + CommitData list) \<times> run_state" where
  "collect_multiple_repositories self s repos_config global_filters =
     (case collect_loop self s (case global_filters of None \<Rightarrow> Map.empty | Some g \<Rightarrow> g) repos_config [] of
        (all_commits, s1) \<Rightarrow> (Inr all_commits, emit [Log INFO] s1))"

text \<open>
  What collecting each configured repository gives, in order, each in the state the run
  has reached: the list the claim about the orchestrator speaks of.
\<close>

fun repo_outcomes ::
  "data_collector \<Rightarrow> run_state \<Rightarrow> (string \<rightharpoonup> string option) \<Rightarrow> repo_config list
     \<Rightarrow> (exn + CommitData list) list" where
  "repo_outcomes self s global_filters [] = []"
| "repo_outcomes self s global_filters (rc # rest) =
     (case collect_one self s global_filters rc of
        (Inr commits, s1) \<Rightarrow> Inr commits # repo_outcomes self s1 global_filters rest
      | (Inl e, s1) \<Rightarrow> Inl e # repo_outcomes self (emit [Log ERROR] s1) global_filters rest)"

definition commits_of_outcome :: "exn + CommitData list \<Rightarrow> CommitData list" where
  "commits_of_outcome r = (case r of Inl e \<Rightarrow> [] | Inr commits \<Rightarrow> commits)"

section \<open>config_manager.py and main.py\<close>

text \<open>
  A YAML file of the configuration directory as \<open>load_yaml_config\<close> meets it: missing
  (it raises \<open>FileNotFoundError\<close>), unreadable (opening or parsing raises), or loaded.
\<close>

datatype 'a yaml_file = FileMissing | FileUnreadable exn | FileLoaded 'a

record repositories_yaml =
  ry_repositories :: "repo_config list option"
  ry_filters :: "(string \<rightharpoonup> string option) option"

text \<open>
  The process environment and the configuration directory. \<open>env_api_config\<close> is what
  \<open>get_api_config\<close> returns or raises (an \<open>int()\<close> of a malformed variable raises).
\<close>

record environment =
  env_github_token :: "string option"
  env_api_config :: "exn + github_client"
  repositories_file :: "repositories_yaml yaml_file"
  teams_file :: "team_config yaml_file"

definition load_yaml_config :: "'a yaml_file \<Rightarrow> exn + 'a" where
  "load_yaml_config f =
     (case f of
        FileMissing \<Rightarrow> Inl FileNotFoundError
      | FileUnreadable e \<Rightarrow> Inl e
      | FileLoaded config \<Rightarrow> Inr config)"

definition get_github_token :: "environment \<Rightarrow> exn + string" where
  "get_github_token env =
     (case env_github_token env of
        None \<Rightarrow> Inl ValueError
      | Some tok \<Rightarrow> if \<not> truthy (env_github_token env) then Inl ValueError else Inr tok)"

definition load_team_mapping :: "environment \<Rightarrow> exn + team_config" where
  "load_team_mapping env =
     (case load_yaml_config (teams_file env) of
        Inl FileNotFoundError \<Rightarrow> Inr \<lparr> cfg_default_team = Some ''unassigned'', cfg_teams = Some [] \<rparr>
      | Inl e \<Rightarrow> Inl e
      | Inr config \<Rightarrow> Inr config)"

definition load_repositories :: "environment \<Rightarrow> exn + repo_config list" where
  "load_repositories env =
     (case load_yaml_config (repositories_file env) of
        Inl FileNotFoundError \<Rightarrow> Inr []
      | Inl e \<Rightarrow> Inl e
      | Inr config \<Rightarrow>
          Inr (filter (\<lambda>r. case rc_enabled r of None \<Rightarrow> True | Some b \<Rightarrow> b)
                 (case ry_repositories config of None \<Rightarrow> [] | Some repos \<Rightarrow> repos)))"

definition get_filter_config :: "environment \<Rightarrow> exn + (string \<rightharpoonup> string option)" where
  "get_filter_config env =
     (case load_yaml_config (repositories_file env) of
        Inl FileNotFoundError \<Rightarrow> Inr Map.empty
      | Inl e \<Rightarrow> Inl e
      | Inr config \<Rightarrow> Inr (case ry_filters config of None \<Rightarrow> Map.empty | Some f \<Rightarrow> f))"

text \<open>\<open>validate_config\<close>: a missing token raises; an empty repository list is a warning.\<close>

definition validate_config :: "environment \<Rightarrow> (exn + bool) \<times> event list" where
  "validate_config env =
     (case get_github_token env of
        Inl e \<Rightarrow> (Inl ValueError, [])
      | Inr tok \<Rightarrow>
          (case load_repositories env of
             Inl e \<Rightarrow> (Inl e, [])
           | Inr repos \<Rightarrow> (Inr True, if repos = [] then [Log WARNING] else [])))"

record cli_args =
  arg_repo :: "string option"
  arg_branch :: string
  arg_date_from :: "string option"
  arg_date_to :: "string option"
  arg_author :: "string option"
  arg_no_detailed_commits :: bool
  arg_test_connection :: bool

text \<open>The command-line overrides of the global filters.\<close>

definition override_filters :: "cli_args \<Rightarrow> (string \<rightharpoonup> string option) \<Rightarrow> (string \<rightharpoonup> string option)" where
  "override_filters args f0 =
     (let f1 = (if truthy (arg_date_from args) then f0(''date_from'' \<mapsto> arg_date_from args) else f0);
          f2 = (if truthy (arg_date_to args) then f1(''date_to'' \<mapsto> arg_date_to args) else f1)
      in if truthy (arg_author args) then f2(''author'' \<mapsto> arg_author args) else f2)"

text \<open>
  \<open>main\<close>, from the configuration manager to the collection: the exit status and the
  events of the run. \<open>gh\<close> is the service, \<open>proc\<close> gives the processor for a team mapper,
  \<open>up\<close> is \<open>urlparse(url).path\<close>. What follows the collection of a non-empty commit list
  (team filter, statistics, export) is \<open>finish\<close>: the exception it raises, if any. Every
  exception is caught at the end of \<open>main\<close>, logged, and turned into exit status 1. Of
  \<open>main\<close>'s own log records the trace keeps the errors and the final warning; the
  connection test is the client call \<open>TestConnection\<close>.
\<close>

definition determine_repositories :: "cli_args \<Rightarrow> environment \<Rightarrow> exn + repo_config list" where
  "determine_repositories args env =
     (if truthy (arg_repo args)
      then Inr [\<lparr> rc_url = arg_repo args, rc_branch = Some (arg_branch args),
                  rc_filters = None, rc_enabled = Some True \<rparr>]
      else load_repositories env)"

definition run_collection ::
  "cli_args \<Rightarrow> environment \<Rightarrow> data_collector \<Rightarrow> (CommitData list \<Rightarrow> exn option) \<Rightarrow> event list
     \<Rightarrow> repo_config list \<Rightarrow> int \<times> event list" where
  "run_collection args env collector finish tr repos_config =
     (case get_filter_config env of
        Inl e \<Rightarrow> (1, tr @ [Log ERROR])
      | Inr file_filters \<Rightarrow>
          (case collect_multiple_repositories collector
                  \<lparr> branch_cache = Map.empty, trace = tr \<rparr>
                  repos_config (Some (override_filters args file_filters)) of
             (Inl e, s1) \<Rightarrow> (1, trace s1 @ [Log ERROR])
           | (Inr all_commits, s1) \<Rightarrow>
               if all_commits = [] then (0, trace s1 @ [Log WARNING])
               else (case finish all_commits of
                       Some e \<Rightarrow> (1, trace s1 @ [Log ERROR])
                     | None \<Rightarrow> (0, trace s1))))"

definition main ::
  "cli_args \<Rightarrow> environment \<Rightarrow> github \<Rightarrow> (team_mapper \<Rightarrow> commit_processor) \<Rightarrow> (string \<Rightarrow> string)
     \<Rightarrow> (CommitData list \<Rightarrow> exn option) \<Rightarrow> int \<times> event list" where
  "main args env gh proc up finish =
     (case validate_config env of
        (Inl e, tr) \<Rightarrow> (1, tr @ [Log ERROR])
      | (Inr valid, tr) \<Rightarrow>
          (case env_api_config env of
             Inl e \<Rightarrow> (1, tr @ [Log ERROR])
           | Inr api_config \<Rightarrow>
               (case get_github_token env of
                  Inl e \<Rightarrow> (1, tr @ [Log ERROR])
                | Inr tok \<Rightarrow>
                    if arg_test_connection args
                    then (if connection_ok gh
                          then (0, tr @ [Call TestConnection])
                          else (1, tr @ [Call TestConnection, Log ERROR]))
                    else (case load_team_mapping env of
                            Inl e \<Rightarrow> (1, tr @ [Log ERROR])
                          | Inr team_config \<Rightarrow>
                              (case determine_repositories args env of
                                 Inl e \<Rightarrow> (1, tr @ [Log ERROR])
                               | Inr repos_config \<Rightarrow>
                                   if \<not> truthy (arg_repo args) \<and> repos_config = []
                                   then (1, tr @ [Log ERROR])
                                   else run_collection args env
                                          \<lparr> dc_github = gh,
                                            dc_commit_processor = proc (TeamMapper_init team_config),
                                            fetch_detailed_commits = (\<not> arg_no_detailed_commits args),
                                            auto_detect_branch = True,
                                            urlparse_path = up \<rparr>
                                          finish tr repos_config)))))"

text \<open>Network activity of a run: the client calls in its trace.\<close>

definition network_activity :: "event list \<Rightarrow> api_call list" where
  "network_activity tr = api_calls tr"

section \<open>Example inputs\<close>

text \<open>A client built by the constructor with a given \<open>max_retries\<close> and a buffer of 10.\<close>

definition example_client :: "int \<Rightarrow> github_client" where
  "example_client retries = GitHubAPIClient_init ''secret'' ''https://api.github.com/'' 30 retries 10"

text \<open>A rate-limit answer that is read successfully, and what a read gives in general.\<close>

definition rate_status :: "int \<Rightarrow> int \<Rightarrow> exn + (int \<times> int) response" where
  "rate_status remaining reset_time =
     Inr \<lparr> status_code = 200, body_text = [], json_body = Inr (remaining, reset_time) \<rparr>"


text \<open>
  A world in which attempt \<open>n\<close> of a request gets the \<open>n\<close>-th of a list of answers, and a
  connection error beyond the list; the quota is never short.
\<close>

definition scripted :: "(exn + string response) list \<Rightarrow> nat \<Rightarrow> string attempt_env" where
  "scripted answers n =
     \<lparr> rate_limit_response = rate_status 5000 0, clock = 0,
       api_response = (if 1 \<le> n \<and> n \<le> length answers then answers ! (n - 1)
                       else Inl ConnectionError) \<rparr>"

definition ok_response :: "string \<Rightarrow> exn + string response" where
  "ok_response j = Inr \<lparr> status_code = 200, body_text = j, json_body = Inr j \<rparr>"

text \<open>
  The answer of the commit-listing endpoint to page \<open>p\<close> of a \<open>get_commits\<close> call, and how
  the loop reads an answer: a full page (not the last one), a final page, its items.
\<close>

definition page_answer ::
  "(string \<Rightarrow> commit_query \<Rightarrow> exn + 'c list) \<Rightarrow> string \<Rightarrow> string \<Rightarrow> string
     \<Rightarrow> string option \<Rightarrow> string option \<Rightarrow> string option \<Rightarrow> int \<Rightarrow> nat \<Rightarrow> exn + 'c list" where
  "page_answer make_req owner repo branch since until author per_page p =
     make_req (commits_endpoint owner repo) (commit_params branch since until author per_page p)"

definition full_page :: "int \<Rightarrow> exn + 'c list \<Rightarrow> bool" where
  "full_page per_page answer = (case answer of Inr commits \<Rightarrow> \<not> last_page per_page commits | Inl e \<Rightarrow> False)"

definition final_page :: "int \<Rightarrow> exn + 'c list \<Rightarrow> bool" where
  "final_page per_page answer = (case answer of Inr commits \<Rightarrow> last_page per_page commits | Inl e \<Rightarrow> False)"

definition page_items :: "exn + 'c list \<Rightarrow> 'c list" where
  "page_items answer = (case answer of Inr commits \<Rightarrow> commits | Inl e \<Rightarrow> [])"

text \<open>A fresh run: an empty branch cache and no events.\<close>

definition initial_state :: run_state where
  "initial_state = \<lparr> branch_cache = Map.empty, trace = [] \<rparr>"

text \<open>
  A commit as the listing returns it and as the detail request returns it (with statistics
  and one changed file), and a service with a few repositories: \<open>repo\<close> has the branches
  \<open>develop\<close> (its default) and \<open>master\<close> and also answers the empty branch name,
  \<open>legacy\<close> has only \<open>master\<close>, \<open>empty\<close> and \<open>broken\<close> fail every listing, the metadata of
  \<open>unreachable\<close> cannot be fetched and that of \<open>bare\<close> names no default branch; the detail
  of commit \<open>c3\<close> cannot be fetched.
\<close>

definition example_commit :: "string \<Rightarrow> commit_json" where
  "example_commit sha =
     \<lparr> cj_sha = Some sha,
       cj_commit = Some \<lparr> gc_author = Some \<lparr> ga_name = Some ''Alice'', ga_email = Some ''alice@example.com'',
                                              ga_date = Some ''2024-01-15T10:00:00Z'' \<rparr>,
                          gc_message = Some ''Fix the build'' \<rparr>,
       cj_author = Some \<lparr> login = Some ''ALICE'' \<rparr>,
       cj_stats = None, cj_files = None,
       cj_html_url = Some (''https://github.com/octo/repo/commit/'' @ sha),
       cj_other_keys = True \<rparr>"

definition example_detail :: "string \<Rightarrow> commit_json" where
  "example_detail sha =
     (example_commit sha)
       \<lparr> cj_stats := Some \<lparr> st_additions = Some 10, st_deletions = Some 5, st_total = Some 15 \<rparr>,
         cj_files := Some [\<lparr> fj_filename = Some ''src/main.py'', fj_status = Some ''modified'',
                            fj_additions = Some 10, fj_deletions = Some 5, fj_changes = Some 15,
                            fj_patch = None \<rparr>] \<rparr>"

definition example_github :: github where
  "example_github =
     \<lparr> repository_info_of =
         (\<lambda>owner repo.
            if repo = ''unreachable'' then Inl (RetryError ConnectionError)
            else Inr \<lparr> ri_default_branch = (if repo = ''bare'' then None else Some ''develop''),
                       ri_html_url = None \<rparr>),
       commits_of =
         (\<lambda>owner repo b since until author per_page.
            if repo = ''broken'' \<or> repo = ''empty'' then Inl (RetryError (HTTPError 500))
            else if repo = ''legacy'' then (if b = ''master'' then Inr [example_commit ''c1'']
                                           else Inl (RetryError (HTTPError 404)))
            else if b = [] \<or> b = ''develop'' \<or> b = ''master''
            then Inr (map example_commit [''c1'', ''c2'', ''c3'', ''c4'', ''c5''])
            else Inl (RetryError (HTTPError 404))),
       commit_details_of =
         (\<lambda>owner repo sha.
            if sha = ''c3'' then Inl (RetryError Timeout) else Inr (example_detail sha)),
       connection_ok = True \<rparr>"

text \<open>Which detector operations clear the cache, and which run the fallback chain.\<close>

fun is_clear :: "detector_op \<Rightarrow> bool" where
  "is_clear OpClearCache = True"
| "is_clear op = False"

fun is_fallback :: "detector_op \<Rightarrow> bool" where
  "is_fallback (OpFallback owner repo preferred) = True"
| "is_fallback op = False"

text \<open>A repository key has a cache entry.\<close>

definition cached :: "string \<Rightarrow> run_state \<Rightarrow> bool" where
  "cached k s = (branch_cache s k \<noteq> None)"

text \<open>
  A processor with the test suite's team table and a date parser that knows one date, a
  collector over the example service with both flags set, and three configured
  repositories of which the second cannot be listed.
\<close>

definition example_processor :: commit_processor where
  "example_processor =
     \<lparr> cp_team_mapper = TeamMapper_init test_team_config,
       cp_parse_date = (\<lambda>text. if text = ''2024-01-15T10:00:00Z'' then Some 1705312800 else None),
       cp_now = 1730000000 \<rparr>"

definition example_repos :: "repo_config list" where
  "example_repos =
     [\<lparr> rc_url = Some ''octo/repo'', rc_branch = None, rc_filters = None, rc_enabled = None \<rparr>,
      \<lparr> rc_url = Some ''octo/broken'', rc_branch = None, rc_filters = None, rc_enabled = None \<rparr>,
      \<lparr> rc_url = Some ''octo/legacy'', rc_branch = Some ''master'', rc_filters = None,
        rc_enabled = None \<rparr>]"

definition example_collector :: data_collector where
  "example_collector =
     \<lparr> dc_github = example_github, dc_commit_processor = example_processor,
       fetch_detailed_commits = True, auto_detect_branch = True,
       urlparse_path = (\<lambda>url. drop 18 url) \<rparr>"


text \<open>
  The detail the collector ends up holding for a listed commit: the answer to its detail
  request when the commit has a truthy \<open>sha\<close> and the request succeeds, and none otherwise.
\<close>

definition detail_for :: "github \<Rightarrow> string \<Rightarrow> string \<Rightarrow> commit_json \<Rightarrow> commit_json option" where
  "detail_for gh owner repo raw =
     (case cj_sha raw of
        None \<Rightarrow> None
      | Some sha \<Rightarrow>
          if sha = [] then None
          else (case commit_details_of gh owner repo sha of Inr d \<Rightarrow> Some d | Inl e \<Rightarrow> None))"

text \<open>
  An environment with a token and a repository file that lists no repository, and command
  lines without \<open>--repo\<close>, with or without \<open>--test-connection\<close>.
\<close>

definition example_env :: environment where
  "example_env =
     \<lparr> env_github_token = Some ''secret'',
       env_api_config = Inr (example_client 3),
       repositories_file = FileLoaded \<lparr> ry_repositories = Some [], ry_filters = None \<rparr>,
       teams_file = FileMissing \<rparr>"

definition example_args :: "bool \<Rightarrow> cli_args" where
  "example_args test_connection =
     \<lparr> arg_repo = None, arg_branch = ''main'', arg_date_from = None, arg_date_to = None,
       arg_author = None, arg_no_detailed_commits = False, arg_test_connection = test_connection \<rparr>"

section \<open>Properties of team_mapper.py\<close>

lemma lower_char_idem: "lower_char (lower_char c) = lower_char c"
  by (simp add: lower_char_def Let_def)

lemma str_lower_idem: "str_lower (str_lower s) = str_lower s"
  by (simp add: str_lower_def lower_char_idem)

lemma add_members_map_of:
  "add_members t us m = m ++ map_of (rev (map (\<lambda>u. (str_lower u, t)) us))"
  by (induction us arbitrary: m) (simp_all add: map_add_upd_left)

lemma build_mapping_map_of:
  "build_mapping ts m = m ++ map_of (rev (config_pairs ts))"
proof (induction ts m rule: build_mapping.induct)
  case (1 m)
  show ?case by simp
next
  case (2 team_name members rest m)
  then show ?case by (simp add: add_members_map_of)
next
  case (3 team_name rest m)
  then show ?case by simp
qed

lemma lower_examples:
  "str_lower ''ALICE'' = ''alice''" "str_lower ''alice'' = ''alice''"
  "str_lower ''unknown'' = ''unknown''" "str_lower ''bob'' = ''bob''"
  "str_lower ''charlie'' = ''charlie''"
  by code_simp+

text \<open>
  Claim C10. \<open>get_team\<close> returns a team for every input (it is a total function with no
  raising path). \<open>None\<close> and the empty string both give the default team. A non-empty
  username is looked up by its lower-cased form: it gives the team stored under that key,
  or the default team when there is none, so two spellings that differ only in case give
  the same team. For a mapper built by \<open>__init__\<close>, the stored team is the one of the last
  configured (member, team) pair whose member lower-cases to the same key.
\<close>

theorem get_team_lookup:
  "get_team tm None = default_team tm
   \<and> get_team tm (Some []) = get_team tm None
   \<and> (u \<noteq> [] \<longrightarrow>
        get_team tm (Some u) =
          (case username_to_team tm (str_lower u) of None \<Rightarrow> default_team tm | Some team \<Rightarrow> team))
   \<and> (u \<noteq> [] \<and> v \<noteq> [] \<and> str_lower u = str_lower v \<longrightarrow> get_team tm (Some u) = get_team tm (Some v))
   \<and> (u \<noteq> [] \<longrightarrow>
        get_team (TeamMapper_init cfg) (Some u) =
          (case map_of (rev (config_pairs (case cfg_teams cfg of None \<Rightarrow> [] | Some ts \<Rightarrow> ts)))
                  (str_lower u) of
             None \<Rightarrow> (case cfg_default_team cfg of None \<Rightarrow> ''unassigned'' | Some d \<Rightarrow> d)
           | Some team \<Rightarrow> team))"
  by (simp add: get_team_def truthy_def TeamMapper_init_def build_mapping_map_of split: option.split)

theorem get_team_lookup_witness:
  "get_team (TeamMapper_init test_team_config) (Some ''ALICE'') = ''backend''
   \<and> get_team (TeamMapper_init test_team_config) (Some ''alice'') = ''backend''
   \<and> get_team (TeamMapper_init test_team_config) (Some ''unknown'') = ''unassigned''
   \<and> get_team (TeamMapper_init test_team_config) (Some []) = ''unassigned''
   \<and> get_team (TeamMapper_init test_team_config) None = ''unassigned''"
  using get_team_lookup [of "TeamMapper_init test_team_config" "''ALICE''" "''alice''" test_team_config]
        get_team_lookup [of "TeamMapper_init test_team_config" "''unknown''" "''unknown''" test_team_config]
  by (simp add: test_team_config_def lower_examples TeamMapper_init_def get_team_def truthy_def)

section \<open>Properties of the transport\<close>

lemma sleeps_of_simps [simp]:
  "sleeps_of [] = []"
  "sleeps_of (Sleep d # tr) = d # sleeps_of tr"
  "sleeps_of (Log l # tr) = sleeps_of tr"
  "sleeps_of (RateLimitGet u # tr) = sleeps_of tr"
  "sleeps_of (HttpGet u # tr) = sleeps_of tr"
  "sleeps_of (MakeRequest ep q # tr) = sleeps_of tr"
  "sleeps_of (Call c # tr) = sleeps_of tr"
  by (simp_all add: sleeps_of_def)

lemma sleeps_of_append [simp]: "sleeps_of (xs @ ys) = sleeps_of xs @ sleeps_of ys"
  by (simp add: sleeps_of_def)








lemma check_rate_limit_max_retries_unused:
  "check_rate_limit (self\<lparr> max_retries := m \<rparr>) rl now = check_rate_limit self rl now"
  by (auto simp: check_rate_limit_def split: sum.splits prod.splits)

lemma make_request_once_max_retries_unused:
  "make_request_once (self\<lparr> max_retries := m \<rparr>) env endpoint = make_request_once self env endpoint"
  by (simp add: make_request_once_def check_rate_limit_max_retries_unused request_url_def)

lemma make_request_max_retries_unused:
  "make_request (self\<lparr> max_retries := m \<rparr>) world endpoint = make_request self world endpoint"
  by (simp add: make_request_def make_request_once_max_retries_unused)

lemma attempts_made_simps:
  "attempts_made self ep [] = 0"
  "attempts_made self ep (ev # tr) =
     (if ev = HttpGet (request_url self ep) then 1 else 0) + attempts_made self ep tr"
  "attempts_made self ep (tr @ tr') = attempts_made self ep tr + attempts_made self ep tr'"
  by (simp_all add: attempts_made_def)

lemma make_request_once_attempts:
  "attempts_made self ep (snd (make_request_once self env ep)) = 1"
  by (auto simp: make_request_once_def check_rate_limit_def Let_def attempts_made_def
           split: sum.splits prod.splits)

lemma retry_call_attempts:
  assumes "\<And>k. attempts_made self ep (snd (attempt k)) = 1" "n \<le> stop" "0 < stop"
  shows "attempts_made self ep (snd (retry_call stop wait retry_if attempt n)) \<le> stop - n + 1"
  using assms(2)
proof (induction "stop - n" arbitrary: n)
  case 0
  then show ?case using assms(1)[of n]
    by (subst retry_call.simps) (auto split: prod.splits sum.splits)
next
  case (Suc d)
  have "attempts_made self ep (snd (retry_call stop wait retry_if attempt (Suc n))) \<le> stop - Suc n + 1"
    using Suc by (intro Suc.hyps(1)) auto
  then show ?case using assms(1)[of n] Suc.hyps(2)
    by (subst retry_call.simps) (auto simp: attempts_made_simps split: prod.splits sum.splits)
qed

lemma make_request_at_most_three:
  "attempts_made self ep (snd (make_request self world ep)) \<le> 3"
proof -
  have "attempts_made self ep
          (snd (retry_call 3 (wait_exponential 1 2 10) retry_if_exception_type
                  (\<lambda>n. make_request_once self (world n) ep) 1)) \<le> 3 - 1 + 1"
    by (rule retry_call_attempts) (simp_all add: make_request_once_attempts)
  then show ?thesis by (simp add: make_request_def)
qed

lemmas transport_eval =
  make_request_def retry_call.simps make_request_once_def scripted_def retry_if_exception_type_def
  attempts_made_def check_rate_limit_def rate_status_def raises_for_status_def request_url_def
  example_client_def GitHubAPIClient_init_def ok_response_def wait_exponential_def

text \<open>
  The two runs the specification names, on the code: two transient failures and then a
  success give the answer after three attempts, with the two back-off sleeps in between;
  a request that keeps failing raises \<open>RetryError\<close> after three attempts.
\<close>

lemma make_request_two_failures_then_success:
  "fst (make_request (example_client 3)
          (scripted [Inl ConnectionError, Inl Timeout, ok_response ''[]'']) ''repos/o/r'') = Inr ''[]''"
  "attempts_made (example_client 3) ''repos/o/r''
     (snd (make_request (example_client 3)
             (scripted [Inl ConnectionError, Inl Timeout, ok_response ''[]'']) ''repos/o/r'')) = 3"
  "sleeps_of (snd (make_request (example_client 3)
             (scripted [Inl ConnectionError, Inl Timeout, ok_response ''[]'']) ''repos/o/r'')) = [2, 2]"
  by (simp_all add: transport_eval)

lemma make_request_permanent_failure:
  "fst (make_request (example_client 3) (scripted []) ''repos/o/r'') = Inl (RetryError ConnectionError)"
  "attempts_made (example_client 3) ''repos/o/r''
     (snd (make_request (example_client 3) (scripted []) ''repos/o/r'')) = 3"
  by (simp_all add: transport_eval)

text \<open>
  Claim C3 at the input where the code departs from it. The decorator reads
  \<open>stop_after_attempt(3)\<close>; the \<open>max_retries\<close> the client was built with is stored and
  never read. A client built with \<open>max_retries = 5\<close> gives up after three attempts, and a
  client built with \<open>max_retries = 1\<close> still makes three.
\<close>

theorem make_request_ignores_max_retries:
  "max_retries (example_client 5) = 5
   \<and> fst (make_request (example_client 5) (scripted []) ''repos/o/r'') = Inl (RetryError ConnectionError)
   \<and> attempts_made (example_client 5) ''repos/o/r''
        (snd (make_request (example_client 5) (scripted []) ''repos/o/r'')) = 3
   \<and> max_retries (example_client 1) = 1
   \<and> attempts_made (example_client 1) ''repos/o/r''
        (snd (make_request (example_client 1) (scripted []) ''repos/o/r'')) = 3"
  by (simp add: transport_eval)

section \<open>Properties of the commit listing\<close>

lemma pages_requested_simps [simp]:
  "pages_requested [] = []"
  "pages_requested (MakeRequest ep q # tr) = q_page q # pages_requested tr"
  "pages_requested (Log l # tr) = pages_requested tr"
  "pages_requested (xs @ ys) = pages_requested xs @ pages_requested ys"
  by (simp_all add: pages_requested_def)

lemma loop_stops:
  assumes "page \<le> k"
    and "\<forall>p. page \<le> p \<and> p < k \<longrightarrow> full_page per_page (make_req ep (params p))"
    and "final_page per_page (make_req ep (params k))"
    and "\<forall>p. q_page (params p) = p"
  shows "\<exists>tr'. get_commits_loop make_req ep params per_page page acc tr =
            Some (Inr (acc @ concat (map (\<lambda>p. page_items (make_req ep (params p))) [page..<Suc k])), tr')
          \<and> pages_requested tr' = pages_requested tr @ [page..<Suc k]"
  using assms(1,2)
proof (induction "k - page" arbitrary: page acc tr)
  case 0
  then have "page = k" by simp
  with assms(3,4) show ?case
    by (subst get_commits_loop.simps)
       (auto simp: final_page_def last_page_def page_items_def split: sum.splits)
next
  case (Suc d)
  then have lt: "page < k" by simp
  with Suc.prems(2) have full: "full_page per_page (make_req ep (params page))" by simp
  then obtain cs where cs: "make_req ep (params page) = Inr cs" "\<not> last_page per_page cs"
    by (auto simp: full_page_def split: sum.splits)
  have step: "get_commits_loop make_req ep params per_page page acc tr =
          get_commits_loop make_req ep params per_page (page + 1) (acc @ cs)
            (tr @ [MakeRequest ep (params page), Log DEBUG])"
    using cs by (subst get_commits_loop.simps) (simp add: last_page_def)
  have "\<exists>tr'. get_commits_loop make_req ep params per_page (page + 1) (acc @ cs)
            (tr @ [MakeRequest ep (params page), Log DEBUG]) =
            Some (Inr ((acc @ cs) @ concat (map (\<lambda>p. page_items (make_req ep (params p))) [page + 1..<Suc k])), tr')
          \<and> pages_requested tr' = pages_requested (tr @ [MakeRequest ep (params page), Log DEBUG]) @ [page + 1..<Suc k]"
    using Suc.hyps(2) lt Suc.prems(2) by (intro Suc.hyps(1)) auto
  moreover have "[page..<Suc k] = page # [page + 1..<Suc k]"
    using lt by (simp add: upt_conv_Cons)
  ultimately show ?case using step cs assms(4) by (auto simp: page_items_def)
qed

lemma loop_diverges:
  assumes "get_commits_loop make_req ep params per_page page acc tr = Some y"
  shows "\<exists>p \<ge> page. \<not> full_page per_page (make_req ep (params p))"
proof (rule get_commits_loop.raw_induct
         [where P = "\<lambda>make_req ep params per_page page acc tr y.
                       \<exists>p \<ge> page. \<not> full_page per_page (make_req ep (params p))",
          OF _ assms], goal_cases)
  case (1 f make_req ep params per_page page acc tr y)
  note ih = 1(1) and unfolded = 1(2)
  show ?case
  proof (cases "full_page per_page (make_req ep (params page))")
    case False
    then show ?thesis by blast
  next
    case True
    then obtain cs where cs: "make_req ep (params page) = Inr cs" "\<not> last_page per_page cs"
      by (auto simp: full_page_def split: sum.splits)
    have next_call: "f make_req ep params per_page (page + 1) (acc @ cs)
            (tr @ [MakeRequest ep (params page), Log DEBUG]) = Some y"
      using unfolded cs by (simp add: last_page_def)
    have "\<exists>p \<ge> page + 1. \<not> full_page per_page (make_req ep (params p))"
      by (rule ih [OF next_call])
    then obtain p where "p \<ge> page + 1" "\<not> full_page per_page (make_req ep (params p))" by blast
    then show ?thesis by (intro exI[of _ p]) simp
  qed
qed

lemma loop_raises:
  assumes "page \<le> k"
    and "\<forall>p. page \<le> p \<and> p < k \<longrightarrow> full_page per_page (make_req ep (params p))"
    and "make_req ep (params k) = Inl e"
    and "\<forall>p. q_page (params p) = p"
  shows "\<exists>tr'. get_commits_loop make_req ep params per_page page acc tr = Some (Inl e, tr')
          \<and> pages_requested tr' = pages_requested tr @ [page..<Suc k]"
  using assms(1,2)
proof (induction "k - page" arbitrary: page acc tr)
  case 0
  then have "page = k" by simp
  with assms(3,4) show ?case
    by (subst get_commits_loop.simps) auto
next
  case (Suc d)
  then have lt: "page < k" by simp
  with Suc.prems(2) have full: "full_page per_page (make_req ep (params page))" by simp
  then obtain cs where cs: "make_req ep (params page) = Inr cs" "\<not> last_page per_page cs"
    by (auto simp: full_page_def split: sum.splits)
  have step: "get_commits_loop make_req ep params per_page page acc tr =
          get_commits_loop make_req ep params per_page (page + 1) (acc @ cs)
            (tr @ [MakeRequest ep (params page), Log DEBUG])"
    using cs by (subst get_commits_loop.simps) (simp add: last_page_def)
  have "\<exists>tr'. get_commits_loop make_req ep params per_page (page + 1) (acc @ cs)
            (tr @ [MakeRequest ep (params page), Log DEBUG]) = Some (Inl e, tr')
          \<and> pages_requested tr' = pages_requested (tr @ [MakeRequest ep (params page), Log DEBUG]) @ [page + 1..<Suc k]"
    using Suc.hyps(2) lt Suc.prems(2) by (intro Suc.hyps(1)) auto
  moreover have "[page..<Suc k] = page # [page + 1..<Suc k]"
    using lt by (simp add: upt_conv_Cons)
  ultimately show ?case using step cs assms(4) by auto
qed

lemma q_page_commit_params [simp]: "q_page (commit_params branch since until author per_page p) = p"
  by (simp add: commit_params_def)

text \<open>
  Claim C2. \<open>get_commits\<close> asks for page 1, 2, 3, ... and stops exactly at the first page
  that is empty or shorter than the page size \<open>per_page\<close> (the argument the loop compares
  with; the request itself asks for \<open>min(per_page, 100)\<close> items). If page \<open>k\<close> is the first
  such page, the call returns the items of pages 1 to \<open>k\<close> in order after exactly the
  requests for pages 1 to \<open>k\<close>; if every page is full, the call never returns. With the
  default page size of 100, pages of sizes 100, 100, 37 give 237 commits after requests
  for pages 1, 2, 3, and an empty first page gives the empty list after one request.
\<close>

theorem get_commits_pagination:
  "(1 \<le> k
     \<and> (\<forall>p. 1 \<le> p \<and> p < k \<longrightarrow>
            full_page per_page (page_answer make_req owner repo branch since until author per_page p))
     \<and> final_page per_page (page_answer make_req owner repo branch since until author per_page k)
    \<longrightarrow> (\<exists>tr. get_commits make_req owner repo branch since until author per_page =
                Some (Inr (concat (map (\<lambda>p. page_items (page_answer make_req owner repo branch since
                                                         until author per_page p)) [1..<Suc k])), tr)
              \<and> pages_requested tr = [1..<Suc k]))
   \<and> ((\<forall>p. 1 \<le> p \<longrightarrow>
            full_page per_page (page_answer make_req owner repo branch since until author per_page p))
    \<longrightarrow> get_commits make_req owner repo branch since until author per_page = None)
   \<and> (\<exists>commits tr. get_commits (pages_of_sizes [100, 100, 37]) owner repo branch since until author 100
                       = Some (Inr commits, tr)
                     \<and> length commits = 237 \<and> pages_requested tr = [1, 2, 3])
   \<and> (\<exists>tr. get_commits (pages_of_sizes (0 # sizes)) owner repo branch since until author 100
               = Some (Inr [], tr)
            \<and> pages_requested tr = [1])"
proof (intro conjI impI)
  assume h: "1 \<le> k
     \<and> (\<forall>p. 1 \<le> p \<and> p < k \<longrightarrow>
            full_page per_page (page_answer make_req owner repo branch since until author per_page p))
     \<and> final_page per_page (page_answer make_req owner repo branch since until author per_page k)"
  show "\<exists>tr. get_commits make_req owner repo branch since until author per_page =
                Some (Inr (concat (map (\<lambda>p. page_items (page_answer make_req owner repo branch since
                                                         until author per_page p)) [1..<Suc k])), tr)
              \<and> pages_requested tr = [1..<Suc k]"
    using loop_stops [of 1 k per_page make_req "commits_endpoint owner repo"
                         "commit_params branch since until author per_page" "[]" "[Log INFO]"] h
    by (simp add: get_commits_def page_answer_def)
next
  assume h: "\<forall>p. 1 \<le> p \<longrightarrow>
            full_page per_page (page_answer make_req owner repo branch since until author per_page p)"
  show "get_commits make_req owner repo branch since until author per_page = None"
  proof (cases "get_commits make_req owner repo branch since until author per_page")
    case None
    then show ?thesis .
  next
    case (Some y)
    then show ?thesis
      using loop_diverges [of make_req "commits_endpoint owner repo"
                             "commit_params branch since until author per_page" per_page 1 "[]" "[Log INFO]" y] h
      by (auto simp: get_commits_def page_answer_def)
  qed
next
  show "\<exists>commits tr. get_commits (pages_of_sizes [100, 100, 37]) owner repo branch since until author 100
                       = Some (Inr commits, tr)
                     \<and> length commits = 237 \<and> pages_requested tr = [1, 2, 3]"
    by (simp add: get_commits_def get_commits_loop.simps pages_of_sizes_def)
next
  show "\<exists>tr. get_commits (pages_of_sizes (0 # sizes)) owner repo branch since until author 100
               = Some (Inr [], tr)
            \<and> pages_requested tr = [1]"
    by (simp add: get_commits_def get_commits_loop.simps pages_of_sizes_def)
qed

lemma upt_1_3: "[1..<Suc 3] = [1, 2, 3]"
  by (simp add: upt_rec)

theorem get_commits_pagination_witness:
  "\<exists>commits tr. get_commits (pages_of_sizes [100, 100, 37]) ''octo'' ''repo'' ''main'' None None None 100
                    = Some (Inr commits, tr)
                  \<and> length commits = 237 \<and> pages_requested tr = [1, 2, 3]"
proof -
  let ?answer = "page_answer (pages_of_sizes [100, 100, 37]) ''octo'' ''repo'' ''main'' None None None 100"
  have a1: "?answer 1 = Inr (replicate 100 1)" and a2: "?answer 2 = Inr (replicate 100 2)"
    and a3: "?answer 3 = Inr (replicate 37 3)"
    by (simp_all add: page_answer_def pages_of_sizes_def)
  have full: "\<forall>p. 1 \<le> p \<and> p < 3 \<longrightarrow> full_page 100 (?answer p)"
  proof (intro allI impI)
    fix p :: nat
    assume "1 \<le> p \<and> p < 3"
    then have "p = 1 \<or> p = 2" by arith
    then show "full_page 100 (?answer p)"
      using a1 a2 by (auto simp: full_page_def last_page_def)
  qed
  have final: "final_page 100 (?answer 3)"
    using a3 by (simp add: final_page_def last_page_def)
  have "\<exists>tr. get_commits (pages_of_sizes [100, 100, 37]) ''octo'' ''repo'' ''main'' None None None 100 =
                Some (Inr (concat (map (\<lambda>p. page_items (?answer p)) [1..<Suc 3])), tr)
              \<and> pages_requested tr = [1..<Suc 3]"
    using get_commits_pagination [of 3 100 "pages_of_sizes [100, 100, 37]" "''octo''" "''repo''"
                                     "''main''" None None None, THEN conjunct1] full final
    by simp
  then obtain tr where
    got: "get_commits (pages_of_sizes [100, 100, 37]) ''octo'' ''repo'' ''main'' None None None 100 =
            Some (Inr (concat (map (\<lambda>p. page_items (?answer p)) [1..<Suc 3])), tr)"
    and asked: "pages_requested tr = [1..<Suc 3]"
    by blast
  have all: "concat (map (\<lambda>p. page_items (?answer p)) [1..<Suc 3]) =
               replicate 100 1 @ replicate 100 2 @ replicate 37 3"
    unfolding upt_1_3 using a1 a2 a3 by (simp add: page_items_def)
  have got': "get_commits (pages_of_sizes [100, 100, 37]) ''octo'' ''repo'' ''main'' None None None 100 =
            Some (Inr (replicate 100 1 @ replicate 100 2 @ replicate 37 3), tr)"
    using got by (simp only: all)
  have asked': "pages_requested tr = [1, 2, 3]"
    using asked by (simp only: upt_1_3)
  show ?thesis
    by (rule exI [of _ "replicate 100 1 @ replicate 100 2 @ replicate 37 3"], rule exI [of _ tr])
       (simp add: got' asked')
qed

section \<open>Properties of branch_detector.py\<close>

lemma emit_simps [simp]:
  "branch_cache (emit evs s) = branch_cache s"
  "trace (emit evs s) = trace s @ evs"
  by (simp_all add: emit_def)

lemma api_calls_simps [simp]:
  "api_calls [] = []"
  "api_calls (Call c # tr) = c # api_calls tr"
  "api_calls (Log l # tr) = api_calls tr"
  "api_calls (xs @ ys) = api_calls xs @ api_calls ys"
  by (simp_all add: api_calls_def)

lemma validate_branch_result:
  "fst (validate_branch gh s owner repo b) = Inr (branch_validates gh owner repo b)"
  "branch_cache (snd (validate_branch gh s owner repo b)) = branch_cache s"
  by (simp_all add: validate_branch_def branch_validates_def split: sum.splits)

lemma detect_default_branch_result:
  "fst (detect_default_branch gh s owner repo) = Inr (detected_default gh s owner repo)"
  by (simp add: detect_default_branch_def detected_default_def Let_def split: option.splits sum.splits)

lemma detected_default_cache:
  "branch_cache s' = branch_cache s \<Longrightarrow> detected_default gh s' owner repo = detected_default gh s owner repo"
  by (simp add: detected_default_def)

lemma try_common_branches_result:
  "fst (try_common_branches gh s owner repo tried bs) =
     Inr (find (branch_validates gh owner repo) (filter (\<lambda>b. b \<noteq> tried) bs))"
proof (induction bs arbitrary: s)
  case Nil
  show ?case by simp
next
  case (Cons b bs)
  show ?case
  proof (cases "b = tried")
    case True
    then show ?thesis using Cons.IH by simp
  next
    case False
    obtain r s1 where v: "validate_branch gh (emit [Log DEBUG] s) owner repo b = (r, s1)"
      by (cases "validate_branch gh (emit [Log DEBUG] s) owner repo b")
    with validate_branch_result(1) [of gh "emit [Log DEBUG] s" owner repo b]
    have r: "r = Inr (branch_validates gh owner repo b)" by simp
    show ?thesis using False v r Cons.IH [of s1] by simp
  qed
qed

lemma try_preferred_result:
  "fst (try_preferred gh s owner repo pref) =
     Inr (case pref of None \<Rightarrow> None
          | Some p \<Rightarrow> if p \<noteq> [] \<and> branch_validates gh owner repo p then Some p else None)"
  "branch_cache (snd (try_preferred gh s owner repo pref)) = branch_cache s"
proof -
  show "fst (try_preferred gh s owner repo pref) =
     Inr (case pref of None \<Rightarrow> None
          | Some p \<Rightarrow> if p \<noteq> [] \<and> branch_validates gh owner repo p then Some p else None)"
  proof (cases pref)
    case None
    then show ?thesis by (simp add: try_preferred_def)
  next
    case (Some p)
    obtain r s1 where v: "validate_branch gh (emit [Log DEBUG] s) owner repo p = (r, s1)"
      by (cases "validate_branch gh (emit [Log DEBUG] s) owner repo p")
    with validate_branch_result(1) [of gh "emit [Log DEBUG] s" owner repo p]
    have r: "r = Inr (branch_validates gh owner repo p)" by simp
    show ?thesis using Some v r by (simp add: try_preferred_def truthy_def)
  qed
  show "branch_cache (snd (try_preferred gh s owner repo pref)) = branch_cache s"
  proof (cases pref)
    case None
    then show ?thesis by (simp add: try_preferred_def)
  next
    case (Some p)
    obtain r s1 where v: "validate_branch gh (emit [Log DEBUG] s) owner repo p = (r, s1)"
      by (cases "validate_branch gh (emit [Log DEBUG] s) owner repo p")
    with validate_branch_result [of gh "emit [Log DEBUG] s" owner repo p]
    have r: "r = Inr (branch_validates gh owner repo p)" "branch_cache s1 = branch_cache s" by simp_all
    show ?thesis using Some v r by (simp add: try_preferred_def truthy_def)
  qed
qed

lemma fallback_chain:
  "fst (get_branch_with_fallback gh s owner repo pref) =
     Inr (priority_chain (branch_validates gh owner repo) (detected_default gh s owner repo)
            (truthy pref) (case pref of None \<Rightarrow> [] | Some p \<Rightarrow> p))"
proof -
  let ?valid = "branch_validates gh owner repo"
  obtain r1 s1 where p: "try_preferred gh s owner repo pref = (r1, s1)"
    by (cases "try_preferred gh s owner repo pref")
  with try_preferred_result [of gh s owner repo pref]
  have r1: "r1 = Inr (case pref of None \<Rightarrow> None | Some p \<Rightarrow> if p \<noteq> [] \<and> ?valid p then Some p else None)"
    and c1: "branch_cache s1 = branch_cache s" by simp_all
  obtain r2 s2 where d: "detect_default_branch gh (emit [Log DEBUG] s1) owner repo = (r2, s2)"
    by (cases "detect_default_branch gh (emit [Log DEBUG] s1) owner repo")
  with detect_default_branch_result [of gh "emit [Log DEBUG] s1" owner repo]
  have "r2 = Inr (detected_default gh (emit [Log DEBUG] s1) owner repo)" by simp
  then have r2: "r2 = Inr (detected_default gh s owner repo)"
    using detected_default_cache [of "emit [Log DEBUG] s1" s gh owner repo] c1 by simp
  let ?found = "detected_default gh s owner repo"
  obtain r3 s3 where v: "validate_branch gh s2 owner repo ?found = (r3, s3)"
    by (cases "validate_branch gh s2 owner repo ?found")
  with validate_branch_result(1) [of gh s2 owner repo ?found]
  have r3: "r3 = Inr (?valid ?found)" by simp
  obtain r4 s4 where t: "try_common_branches gh s3 owner repo ?found common_branches = (r4, s4)"
    by (cases "try_common_branches gh s3 owner repo ?found common_branches")
  with try_common_branches_result [of gh s3 owner repo ?found common_branches]
  have r4: "r4 = Inr (find ?valid (filter (\<lambda>b. b \<noteq> ?found) common_branches))" by simp
  show ?thesis
    using p r1 d r2 v r3 t r4
    by (cases pref)
       (auto simp: get_branch_with_fallback_def priority_chain_def truthy_def split: option.splits)
qed

lemma find_first_filtered:
  "\<forall>x \<in> set before. \<not> (Q x \<and> P x) \<Longrightarrow> Q c \<Longrightarrow> P c \<Longrightarrow>
     find P (filter Q (before @ c # rest)) = Some c"
  by (induction before) auto

lemma find_none_filtered:
  "\<forall>x \<in> set xs. \<not> (Q x \<and> P x) \<Longrightarrow> find P (filter Q xs) = None"
  by (induction xs) auto

text \<open>
  Claim C1, as the code has it. \<open>get_branch_with_fallback\<close> never raises and returns the
  first option that validates, in this order: the preferred branch, when it is given and
  not the empty string; the detected default branch (what \<open>detect_default_branch\<close> gives:
  the cached name, the metadata's default, or \<open>main\<close>); the first of \<open>main\<close>, \<open>master\<close>,
  \<open>develop\<close>, \<open>trunk\<close> other than the detected default; and \<open>main\<close> when none validates.
  A branch validates when listing its commits returns at least one commit. The first
  conjunct is the chain as one expression; the others spell it out case by case.
\<close>

theorem get_branch_with_fallback_priority:
  "fst (get_branch_with_fallback gh s owner repo pref) =
     Inr (priority_chain (branch_validates gh owner repo) (detected_default gh s owner repo)
            (truthy pref) (case pref of None \<Rightarrow> [] | Some p \<Rightarrow> p))
   \<and> (pref = Some p \<and> p \<noteq> [] \<and> branch_validates gh owner repo p \<longrightarrow>
        fst (get_branch_with_fallback gh s owner repo pref) = Inr p)
   \<and> (\<not> (\<exists>p. pref = Some p \<and> p \<noteq> [] \<and> branch_validates gh owner repo p)
        \<and> branch_validates gh owner repo (detected_default gh s owner repo) \<longrightarrow>
        fst (get_branch_with_fallback gh s owner repo pref) = Inr (detected_default gh s owner repo))
   \<and> (\<not> (\<exists>p. pref = Some p \<and> p \<noteq> [] \<and> branch_validates gh owner repo p)
        \<and> \<not> branch_validates gh owner repo (detected_default gh s owner repo)
        \<and> common_branches = before @ c # rest
        \<and> (\<forall>x \<in> set before. x = detected_default gh s owner repo \<or> \<not> branch_validates gh owner repo x)
        \<and> c \<noteq> detected_default gh s owner repo \<and> branch_validates gh owner repo c \<longrightarrow>
        fst (get_branch_with_fallback gh s owner repo pref) = Inr c)
   \<and> (\<not> (\<exists>p. pref = Some p \<and> p \<noteq> [] \<and> branch_validates gh owner repo p)
        \<and> \<not> branch_validates gh owner repo (detected_default gh s owner repo)
        \<and> (\<forall>x \<in> set common_branches.
              x = detected_default gh s owner repo \<or> \<not> branch_validates gh owner repo x) \<longrightarrow>
        fst (get_branch_with_fallback gh s owner repo pref) = Inr ''main'')"
proof -
  let ?valid = "branch_validates gh owner repo"
  let ?found = "detected_default gh s owner repo"
  have chain: "fst (get_branch_with_fallback gh s owner repo pref) =
     Inr (priority_chain ?valid ?found (truthy pref) (case pref of None \<Rightarrow> [] | Some p \<Rightarrow> p))"
    by (rule fallback_chain)
  have given: "(truthy pref \<and> ?valid (case pref of None \<Rightarrow> [] | Some p \<Rightarrow> p))
                 = (\<exists>p. pref = Some p \<and> p \<noteq> [] \<and> ?valid p)"
    by (cases pref) (auto simp: truthy_def)
  have first: "find ?valid (filter (\<lambda>b. b \<noteq> ?found) common_branches) = Some c"
    if "common_branches = before @ c # rest"
       "\<forall>x \<in> set before. x = ?found \<or> \<not> ?valid x" "c \<noteq> ?found" "?valid c"
    using that find_first_filtered [of before "\<lambda>b. b \<noteq> ?found" ?valid c rest] by auto
  have none: "find ?valid (filter (\<lambda>b. b \<noteq> ?found) common_branches) = None"
    if "\<forall>x \<in> set common_branches. x = ?found \<or> \<not> ?valid x"
    using that find_none_filtered [of common_branches "\<lambda>b. b \<noteq> ?found" ?valid] by auto
  show ?thesis
    unfolding chain
    using given first none
    by (auto simp: priority_chain_def truthy_def)
qed

lemmas detector_eval =
  example_github_def initial_state_def branch_validates_def detected_default_def
  priority_chain_def common_branches_def cache_key_def truthy_def

theorem get_branch_with_fallback_priority_witness:
  "fst (get_branch_with_fallback example_github initial_state ''octo'' ''repo'' (Some ''master'')) = Inr ''master''
   \<and> fst (get_branch_with_fallback example_github initial_state ''octo'' ''repo'' (Some ''feature'')) = Inr ''develop''
   \<and> fst (get_branch_with_fallback example_github initial_state ''octo'' ''repo'' None) = Inr ''develop''
   \<and> fst (get_branch_with_fallback example_github initial_state ''octo'' ''legacy'' (Some ''feature'')) = Inr ''master''
   \<and> fst (get_branch_with_fallback example_github initial_state ''octo'' ''empty'' (Some ''feature'')) = Inr ''main''"
  using get_branch_with_fallback_priority [of example_github initial_state "''octo''" "''repo''" "Some ''master''", THEN conjunct1]
        get_branch_with_fallback_priority [of example_github initial_state "''octo''" "''repo''" "Some ''feature''", THEN conjunct1]
        get_branch_with_fallback_priority [of example_github initial_state "''octo''" "''repo''" None, THEN conjunct1]
        get_branch_with_fallback_priority [of example_github initial_state "''octo''" "''legacy''" "Some ''feature''"
                                             "''feature''" "[''main'']" "''master''" "[''develop'', ''trunk'']"]
        get_branch_with_fallback_priority [of example_github initial_state "''octo''" "''empty''" "Some ''feature''", THEN conjunct1]
  by (simp add: detector_eval)

text \<open>
  The claim as the specification words it counts every preferred branch that is passed as
  given. The code's test is \<open>if preferred_branch:\<close>, which the empty string fails: with
  the preferred branch \<open>''\<close>, which validates on this service, the chain of the claim
  gives \<open>''\<close> and the code returns the detected default \<open>develop\<close>.
\<close>

theorem get_branch_with_fallback_priority_counterexample:
  "priority_chain (branch_validates example_github ''octo'' ''repo'')
     (detected_default example_github initial_state ''octo'' ''repo'') (Some [] \<noteq> None) [] = []
   \<and> fst (get_branch_with_fallback example_github initial_state ''octo'' ''repo'' (Some [])) = Inr ''develop''"
  by (simp add: detector_eval get_branch_with_fallback_def try_preferred_def detect_default_branch_def
        validate_branch_def Let_def)

text \<open>
  Claim C6. \<open>detect_default_branch\<close> always returns a branch name and never raises. With
  no cache entry, a failing metadata request gives \<open>main\<close>, after one request and a warning
  in the log, and a successful one gives the metadata's \<open>default_branch\<close>, or \<open>main\<close> when
  the field is absent. With a cache entry it gives the cached name.
\<close>

theorem detect_default_branch_never_raises:
  "(\<exists>b. fst (detect_default_branch gh s owner repo) = Inr b)
   \<and> (branch_cache s (cache_key owner repo) = None \<and> repository_info_of gh owner repo = Inl e \<longrightarrow>
        fst (detect_default_branch gh s owner repo) = Inr ''main''
        \<and> trace (snd (detect_default_branch gh s owner repo)) =
            trace s @ [Call (GetRepositoryInfo owner repo), Log WARNING, Log INFO])
   \<and> (branch_cache s (cache_key owner repo) = None \<and> repository_info_of gh owner repo = Inr info \<longrightarrow>
        fst (detect_default_branch gh s owner repo) =
          Inr (case ri_default_branch info of None \<Rightarrow> ''main'' | Some b \<Rightarrow> b))
   \<and> (branch_cache s (cache_key owner repo) = Some name \<longrightarrow>
        fst (detect_default_branch gh s owner repo) = Inr name)"
  by (simp add: detect_default_branch_def Let_def split: option.splits sum.splits)

theorem detect_default_branch_never_raises_witness:
  "fst (detect_default_branch example_github initial_state ''octo'' ''unreachable'') = Inr ''main''
   \<and> trace (snd (detect_default_branch example_github initial_state ''octo'' ''unreachable'')) =
        [Call (GetRepositoryInfo ''octo'' ''unreachable''), Log WARNING, Log INFO]
   \<and> fst (detect_default_branch example_github initial_state ''octo'' ''repo'') = Inr ''develop''
   \<and> fst (detect_default_branch example_github initial_state ''octo'' ''bare'') = Inr ''main''"
  using detect_default_branch_never_raises
          [of example_github initial_state "''octo''" "''unreachable''" "RetryError ConnectionError"]
        detect_default_branch_never_raises
          [of example_github initial_state "''octo''" "''repo''" _
              "\<lparr> ri_default_branch = Some ''develop'', ri_html_url = None \<rparr>"]
        detect_default_branch_never_raises
          [of example_github initial_state "''octo''" "''bare''" _
              "\<lparr> ri_default_branch = None, ri_html_url = None \<rparr>"]
  by (simp add: example_github_def initial_state_def)

lemma detect_hit:
  "branch_cache s (cache_key owner repo) = Some b \<Longrightarrow>
     detect_default_branch gh s owner repo = (Inr b, emit [Log DEBUG] s)"
  by (simp add: detect_default_branch_def)

lemma detect_success_caches:
  "repository_info_of gh owner repo = Inr info \<or> cached (cache_key owner repo) s \<Longrightarrow>
     cached (cache_key owner repo) (snd (detect_default_branch gh s owner repo))"
  by (auto simp: detect_default_branch_def cached_def Let_def split: option.splits)

lemma detect_keeps_entry:
  "branch_cache s k = Some b \<Longrightarrow> branch_cache (snd (detect_default_branch gh s owner repo)) k = Some b"
  by (auto simp: detect_default_branch_def Let_def split: option.splits sum.splits)

lemma validate_keeps_cache:
  "branch_cache (snd (validate_branch gh s owner repo b)) = branch_cache s"
  by (simp add: validate_branch_def split: sum.splits)

lemma try_common_keeps_cached:
  "cached k s \<Longrightarrow> cached k (snd (try_common_branches gh s owner repo tried bs))"
proof (induction bs arbitrary: s)
  case Nil
  then show ?case by simp
next
  case (Cons b bs)
  obtain r s1 where v: "validate_branch gh (emit [Log DEBUG] s) owner repo b = (r, s1)"
    by (cases "validate_branch gh (emit [Log DEBUG] s) owner repo b")
  with validate_keeps_cache [of gh "emit [Log DEBUG] s" owner repo b]
  have c1: "branch_cache s1 = branch_cache s" by simp
  then have "cached k s1" using Cons.prems by (simp add: cached_def)
  then have "cached k (snd (try_common_branches gh s1 owner repo tried bs))" by (rule Cons.IH)
  then show ?case using v c1 Cons.prems Cons.IH [of s]
    by (cases r) (auto simp: cached_def)
qed

lemma fallback_keeps_cached:
  assumes "cached k s"
  shows "cached k (snd (get_branch_with_fallback gh s owner repo pref))"
proof -
  obtain r1 s1 where p: "try_preferred gh s owner repo pref = (r1, s1)"
    by (cases "try_preferred gh s owner repo pref")
  with try_preferred_result(2) [of gh s owner repo pref]
  have k1: "cached k s1" using assms by (simp add: cached_def)
  obtain r2 s2 where d: "detect_default_branch gh (emit [Log DEBUG] s1) owner repo = (r2, s2)"
    by (cases "detect_default_branch gh (emit [Log DEBUG] s1) owner repo")
  let ?found = "detected_default gh (emit [Log DEBUG] s1) owner repo"
  have r2: "r2 = Inr ?found"
    using detect_default_branch_result [of gh "emit [Log DEBUG] s1" owner repo] d by simp
  obtain b where b: "branch_cache s1 k = Some b" using k1 by (auto simp: cached_def)
  have k2: "cached k s2"
    using detect_keeps_entry [of "emit [Log DEBUG] s1" k b gh owner repo] b d by (simp add: cached_def)
  obtain r3 s3 where v: "validate_branch gh s2 owner repo ?found = (r3, s3)"
    by (cases "validate_branch gh s2 owner repo ?found")
  have k3: "cached k s3"
    using k2 validate_keeps_cache [of gh s2 owner repo ?found] v by (simp add: cached_def)
  have r3: "r3 = Inr (branch_validates gh owner repo ?found)"
    using validate_branch_result(1) [of gh s2 owner repo ?found] v by simp
  obtain r4 s4 where t: "try_common_branches gh s3 owner repo ?found common_branches = (r4, s4)"
    by (cases "try_common_branches gh s3 owner repo ?found common_branches")
  have k4: "cached k s4"
    using try_common_keeps_cached [OF k3, of gh owner repo ?found common_branches] t by simp
  show ?thesis
    using p d r2 v r3 t k1 k3 k4
    by (auto simp: get_branch_with_fallback_def cached_def split: sum.splits option.splits)
qed

lemma run_op_keeps_cached:
  "\<not> is_clear op \<Longrightarrow> cached k s \<Longrightarrow> cached k (run_op gh s op)"
proof (cases op)
  case (OpDetect owner repo)
  assume "cached k s"
  then obtain b where "branch_cache s k = Some b" by (auto simp: cached_def)
  then show ?thesis using OpDetect detect_keeps_entry [of s k b gh owner repo] by (simp add: cached_def)
next
  case (OpValidate owner repo b)
  assume "cached k s"
  then show ?thesis using OpValidate validate_keeps_cache [of gh s owner repo b] by (simp add: cached_def)
next
  case (OpFallback owner repo pref)
  assume "cached k s"
  then show ?thesis using OpFallback fallback_keeps_cached by simp
next
  case OpClearCache
  assume "\<not> is_clear op"
  then show ?thesis using OpClearCache by simp
qed

lemma run_ops_keeps_cached:
  "\<not> list_ex is_clear ops \<Longrightarrow> cached k s \<Longrightarrow> cached k (run_ops gh s ops)"
  unfolding run_ops_def
  by (induction ops arbitrary: s) (simp_all add: run_op_keeps_cached)

lemma run_op_keeps_entry:
  "\<not> is_clear op \<Longrightarrow> \<not> is_fallback op \<Longrightarrow> branch_cache s k = Some b \<Longrightarrow>
     branch_cache (run_op gh s op) k = Some b"
  by (cases op) (simp_all add: detect_keeps_entry validate_keeps_cache)

lemma run_ops_keeps_entry:
  "\<not> list_ex is_clear ops \<Longrightarrow> \<not> list_ex is_fallback ops \<Longrightarrow> branch_cache s k = Some b \<Longrightarrow>
     branch_cache (run_ops gh s ops) k = Some b"
  unfolding run_ops_def
  by (induction ops arbitrary: s) (simp_all add: run_op_keeps_entry)

lemma detect_after_clear:
  "api_calls (trace (snd (detect_default_branch gh (clear_cache t) owner repo)))
     = api_calls (trace t) @ [GetRepositoryInfo owner repo]"
  by (simp add: detect_default_branch_def clear_cache_def Let_def split: sum.splits)

text \<open>
  Claim C7. The cache of a \<open>BranchDetector\<close> never expires and is emptied only by an
  explicit \<open>clear_cache\<close>; the calls the claim speaks of are those of one cache lifetime.
  Once a detection for a repository has succeeded (its metadata was fetched, or the name
  was cached already), then after any further operations of the same detector other than
  \<open>clear_cache\<close> a detection for that repository returns the cached name and makes no
  client call; unless a fallback search ran in between, the name is the one the first
  detection returned. A \<open>clear_cache\<close> ends the lifetime: the detection after it asks for
  the repository metadata once more.
\<close>

theorem detect_default_branch_cache_hit:
  assumes "repository_info_of gh owner repo = Inr info \<or> cached (cache_key owner repo) s"
    and "\<not> list_ex is_clear ops"
  shows "(\<exists>b. branch_cache (run_ops gh (snd (detect_default_branch gh s owner repo)) ops)
                 (cache_key owner repo) = Some b
              \<and> fst (detect_default_branch gh
                        (run_ops gh (snd (detect_default_branch gh s owner repo)) ops) owner repo) = Inr b)
         \<and> api_calls (trace (snd (detect_default_branch gh
                        (run_ops gh (snd (detect_default_branch gh s owner repo)) ops) owner repo)))
           = api_calls (trace (run_ops gh (snd (detect_default_branch gh s owner repo)) ops))
         \<and> (\<not> list_ex is_fallback ops \<longrightarrow>
              fst (detect_default_branch gh
                     (run_ops gh (snd (detect_default_branch gh s owner repo)) ops) owner repo)
              = fst (detect_default_branch gh s owner repo))
         \<and> api_calls (trace (snd (detect_default_branch gh
                        (clear_cache (run_ops gh (snd (detect_default_branch gh s owner repo)) ops))
                        owner repo)))
           = api_calls (trace (run_ops gh (snd (detect_default_branch gh s owner repo)) ops))
               @ [GetRepositoryInfo owner repo]"
proof -
  let ?k = "cache_key owner repo"
  let ?s1 = "snd (detect_default_branch gh s owner repo)"
  let ?s2 = "run_ops gh ?s1 ops"
  have "cached ?k ?s1" using assms(1) by (rule detect_success_caches)
  then have "cached ?k ?s2" using assms(2) by (simp add: run_ops_keeps_cached)
  then obtain b where b: "branch_cache ?s2 ?k = Some b" by (auto simp: cached_def)
  have hit: "detect_default_branch gh ?s2 owner repo = (Inr b, emit [Log DEBUG] ?s2)"
    using b by (rule detect_hit)
  have same: "fst (detect_default_branch gh ?s2 owner repo) = fst (detect_default_branch gh s owner repo)"
    if nf: "\<not> list_ex is_fallback ops"
  proof -
    obtain b1 where b1: "branch_cache ?s1 ?k = Some b1" using \<open>cached ?k ?s1\<close> by (auto simp: cached_def)
    have first: "fst (detect_default_branch gh s owner repo) = Inr b1"
      using b1 assms(1) by (auto simp: detect_default_branch_def cached_def Let_def split: option.splits)
    have "branch_cache ?s2 ?k = Some b1" using assms(2) nf b1 by (rule run_ops_keeps_entry)
    then show ?thesis using hit b first by simp
  qed
  have cleared: "api_calls (trace (snd (detect_default_branch gh (clear_cache ?s2) owner repo)))
                   = api_calls (trace ?s2) @ [GetRepositoryInfo owner repo]"
    by (rule detect_after_clear)
  show ?thesis using b hit same cleared by simp
qed

text \<open>
  On the example service: a detection, a validation of another branch and a detection for
  another repository, then the detection again, which returns the cached \<open>develop\<close> and adds
  no client call to the three made so far; after a \<open>clear_cache\<close> the same detection
  makes a fourth.
\<close>

theorem detect_default_branch_cache_hit_witness:
  "fst (detect_default_branch example_github
          (run_ops example_github
             (snd (detect_default_branch example_github initial_state ''octo'' ''repo''))
             [OpValidate ''octo'' ''repo'' ''feature'', OpDetect ''octo'' ''bare''])
          ''octo'' ''repo'') = Inr ''develop''
   \<and> api_calls (trace (snd (detect_default_branch example_github
          (run_ops example_github
             (snd (detect_default_branch example_github initial_state ''octo'' ''repo''))
             [OpValidate ''octo'' ''repo'' ''feature'', OpDetect ''octo'' ''bare''])
          ''octo'' ''repo'')))
      = [GetRepositoryInfo ''octo'' ''repo'',
         GetCommits ''octo'' ''repo'' ''feature'' None None None 1,
         GetRepositoryInfo ''octo'' ''bare'']
   \<and> api_calls (trace (snd (detect_default_branch example_github
          (clear_cache
             (run_ops example_github
                (snd (detect_default_branch example_github initial_state ''octo'' ''repo''))
                [OpValidate ''octo'' ''repo'' ''feature'', OpDetect ''octo'' ''bare'']))
          ''octo'' ''repo'')))
      = [GetRepositoryInfo ''octo'' ''repo'',
         GetCommits ''octo'' ''repo'' ''feature'' None None None 1,
         GetRepositoryInfo ''octo'' ''bare'',
         GetRepositoryInfo ''octo'' ''repo'']"
proof -
  have info: "repository_info_of example_github ''octo'' ''repo''
                = Inr \<lparr> ri_default_branch = Some ''develop'', ri_html_url = None \<rparr>
              \<or> cached (cache_key ''octo'' ''repo'') initial_state"
    by (simp add: example_github_def)
  have ops: "\<not> list_ex is_clear [OpValidate ''octo'' ''repo'' ''feature'', OpDetect ''octo'' ''bare'']"
    by simp
  show ?thesis
    using detect_default_branch_cache_hit [OF info ops]
    by (simp add: example_github_def initial_state_def detect_default_branch_def run_ops_def
          validate_branch_def clear_cache_def cache_key_def Let_def)
qed

section \<open>Properties of data_collector.py\<close>

lemma fetch_details_lookup:
  "map_of (fst (fetch_details gh owner repo i cs d s)) sha =
     (if sha \<noteq> [] \<and> Some sha \<in> cj_sha ` set cs
      then (case commit_details_of gh owner repo sha of Inr x \<Rightarrow> Some x | Inl e \<Rightarrow> map_of d sha)
      else map_of d sha)"
proof (induction cs arbitrary: i d s)
  case Nil
  show ?case by simp
next
  case (Cons c cs)
  show ?case
  proof (cases "cj_sha c")
    case None
    then show ?thesis using Cons.IH by (auto simp: truthy_def)
  next
    case (Some k)
    show ?thesis
    proof (cases "k = []")
      case True
      then show ?thesis using Some Cons.IH by (auto simp: truthy_def)
    next
      case False
      show ?thesis
      proof (cases "commit_details_of gh owner repo k")
        case (Inl e)
        then show ?thesis using Some False Cons.IH by (auto simp: truthy_def split: sum.splits)
      next
        case (Inr x)
        then show ?thesis using Some False Cons.IH by (auto simp: truthy_def split: sum.splits)
      qed
    qed
  qed
qed

lemma process_commit_never_raises: "\<exists>c. process_commit cp raw owner repo url b detailed = Inr c"
  by (simp add: process_commit_def Let_def)

lemma batch_lookup:
  assumes "\<forall>raw \<in> set cs. (if dc \<noteq> [] then (case cj_sha raw of None \<Rightarrow> None | Some sha \<Rightarrow> map_of dc sha) else None) = f raw"
  shows "map Inr (process_commits_batch cp cs owner repo url b dc)
           = map (\<lambda>raw. process_commit cp raw owner repo url b (f raw)) cs"
  using assms
proof (induction cs)
  case Nil
  show ?case by simp
next
  case (Cons c cs)
  obtain x where x: "process_commit cp c owner repo url b (f c) = Inr x"
    using process_commit_never_raises by blast
  have "(if dc \<noteq> [] then (case cj_sha c of None \<Rightarrow> None | Some sha \<Rightarrow> map_of dc sha) else None) = f c"
    using Cons.prems by simp
  then show ?case using Cons x by (simp add: Let_def)
qed

lemma fetched_detail_for:
  "(if fst (fetch_details gh owner repo i cs [] s) \<noteq> []
    then (case cj_sha raw of None \<Rightarrow> None
          | Some sha \<Rightarrow> map_of (fst (fetch_details gh owner repo i cs [] s)) sha)
    else None) = detail_for gh owner repo raw" if "raw \<in> set cs"
proof -
  let ?d = "fst (fetch_details gh owner repo i cs [] s)"
  have look: "(case cj_sha raw of None \<Rightarrow> None | Some sha \<Rightarrow> map_of ?d sha) = detail_for gh owner repo raw"
    using that by (auto simp: fetch_details_lookup detail_for_def image_iff split: option.splits sum.splits)
  show ?thesis
  proof (cases "?d = []")
    case True
    then have "map_of ?d = Map.empty" by simp
    then show ?thesis using look True by (auto split: option.splits)
  next
    case False
    then show ?thesis using look by simp
  qed
qed

lemma resolve_branch_never_raises: "\<exists>b. fst (resolve_branch dc s owner repo br) = Inr b"
proof (cases br)
  case None
  obtain r s1 where d: "detect_default_branch (dc_github dc) s owner repo = (r, s1)"
    by (cases "detect_default_branch (dc_github dc) s owner repo")
  with detect_default_branch_result [of "dc_github dc" s owner repo] have "\<exists>b. r = Inr b" by simp
  then show ?thesis using None d by (auto simp: resolve_branch_def)
next
  case (Some b)
  then show ?thesis
    using fallback_chain [of "dc_github dc" s owner repo "Some b"]
    by (auto simp: resolve_branch_def)
qed

text \<open>
  Claim C5. With detail fetching enabled, when the URL parses, the repository metadata is
  fetched and the listing returns \<open>commits\<close>, \<open>collect_repository_commits\<close> does not raise
  and returns one record per listed commit, in order, whatever the detail requests do: the
  record of a commit is built from its detail where the detail request succeeded and from
  the listing's summary where it failed (or where the commit has no \<open>sha\<close>). The branch
  decision before it never raises.
\<close>

theorem detail_failure_tolerated:
  assumes "parse_repo_url dc repo_url = Inr (owner, repo)"
    and "fst (resolve_branch dc s owner repo br) = Inr b"
    and "repository_info_of (dc_github dc) owner repo = Inr repo_info"
    and "commits_of (dc_github dc) owner repo b date_from date_to author 100 = Inr commits"
    and "fetch_detailed_commits dc"
  shows "\<exists>processed.
           fst (collect_repository_commits dc s repo_url br date_from date_to author) = Inr processed
           \<and> length processed = length commits
           \<and> map Inr processed =
               map (\<lambda>raw. process_commit (dc_commit_processor dc) raw owner repo
                             (case ri_html_url repo_info of
                                None \<Rightarrow> (case repo_url of None \<Rightarrow> [] | Some u \<Rightarrow> u)
                              | Some u \<Rightarrow> u)
                             b (detail_for (dc_github dc) owner repo raw))
                   commits"
proof -
  let ?gh = "dc_github dc"
  let ?url = "case ri_html_url repo_info of
                None \<Rightarrow> (case repo_url of None \<Rightarrow> [] | Some u \<Rightarrow> u) | Some u \<Rightarrow> u"
  let ?expected = "map (\<lambda>raw. process_commit (dc_commit_processor dc) raw owner repo ?url b
                                 (detail_for ?gh owner repo raw)) commits"
  obtain r1 s1 where rb: "resolve_branch dc s owner repo br = (r1, s1)"
    by (cases "resolve_branch dc s owner repo br")
  with assms(2) have r1: "r1 = Inr b" by simp
  let ?s2 = "emit [Log INFO, Call (GetRepositoryInfo owner repo),
                   Call (GetCommits owner repo b date_from date_to author 100)] s1"
  obtain dcs s3 where fd: "fetch_details ?gh owner repo 1 commits [] (emit [Log INFO] ?s2) = (dcs, s3)"
    by (cases "fetch_details ?gh owner repo 1 commits [] (emit [Log INFO] ?s2)")
  have "\<forall>raw \<in> set commits.
          (if dcs \<noteq> [] then (case cj_sha raw of None \<Rightarrow> None | Some sha \<Rightarrow> map_of dcs sha) else None)
          = detail_for ?gh owner repo raw"
  proof
    fix raw
    assume "raw \<in> set commits"
    then show "(if dcs \<noteq> [] then (case cj_sha raw of None \<Rightarrow> None | Some sha \<Rightarrow> map_of dcs sha) else None)
          = detail_for ?gh owner repo raw"
      using fetched_detail_for [of raw commits ?gh owner repo 1 "emit [Log INFO] ?s2"]
      unfolding fd fst_conv by simp
  qed
  then have batch: "map Inr (process_commits_batch (dc_commit_processor dc) commits owner repo ?url b dcs)
                      = ?expected"
    by (rule batch_lookup)
  have body: "fst (collect_repository_commits_body dc s repo_url br date_from date_to author) =
                Inr (process_commits_batch (dc_commit_processor dc) commits owner repo ?url b dcs)"
    using assms(1,3,4,5) rb r1 fd
    by (cases "commits = []") (simp_all add: collect_repository_commits_body_def Let_def)
  then have whole: "fst (collect_repository_commits dc s repo_url br date_from date_to author) =
                Inr (process_commits_batch (dc_commit_processor dc) commits owner repo ?url b dcs)"
    by (cases "collect_repository_commits_body dc s repo_url br date_from date_to author")
       (auto simp: collect_repository_commits_def)
  have len: "length (process_commits_batch (dc_commit_processor dc) commits owner repo ?url b dcs)
               = length commits"
    using arg_cong [OF batch, of length] by simp
  show ?thesis using whole len batch by blast
qed

lemma parse_examples:
  "parse_repo_url example_collector (Some ''octo/repo'') = Inr (''octo'', ''repo'')"
  "parse_repo_url example_collector (Some ''octo/broken'') = Inr (''octo'', ''broken'')"
  "parse_repo_url example_collector (Some ''octo/legacy'') = Inr (''octo'', ''legacy'')"
  "parse_repo_url example_collector (Some '' https://github.com/octo/repo.git/ '') = Inr (''octo'', ''repo'')"
  "parse_repo_url example_collector (Some ''repo'') = Inl ValueError"
  by (simp_all add: parse_repo_url_def example_collector_def py_strip_def is_space_def rstrip_char_def
        lstrip_char_def strip_char_def Let_def)

lemma resolve_example:
  "fst (resolve_branch example_collector initial_state ''octo'' ''repo'' (Some ''develop'')) = Inr ''develop''"
  using fallback_chain [of example_github initial_state "''octo''" "''repo''" "Some ''develop''"]
  by (simp add: resolve_branch_def example_collector_def detector_eval)

text \<open>
  Five listed commits, the detail request of the third fails: five records, the third with
  no file changes and no statistics, the others with the file of their detail.
\<close>

theorem detail_failure_tolerated_witness:
  "\<exists>processed.
     fst (collect_repository_commits example_collector initial_state (Some ''octo/repo'')
            (Some ''develop'') None None None) = Inr processed
     \<and> length processed = 5
     \<and> map commit_sha processed = [''c1'', ''c2'', ''c3'', ''c4'', ''c5'']
     \<and> map files_changed_count processed = [1, 1, 0, 1, 1]
     \<and> map total_changes processed = [15, 15, 0, 15, 15]"
proof -
  let ?commits = "map example_commit [''c1'', ''c2'', ''c3'', ''c4'', ''c5'']"
  let ?info = "\<lparr> ri_default_branch = Some ''develop'', ri_html_url = None \<rparr>"
  have info: "repository_info_of (dc_github example_collector) ''octo'' ''repo'' = Inr ?info"
    by (simp add: example_collector_def example_github_def)
  have listing: "commits_of (dc_github example_collector) ''octo'' ''repo'' ''develop'' None None None 100
                   = Inr ?commits"
    by (simp add: example_collector_def example_github_def)
  have flag: "fetch_detailed_commits example_collector"
    by (simp add: example_collector_def)
  obtain processed where
    res: "fst (collect_repository_commits example_collector initial_state (Some ''octo/repo'')
                 (Some ''develop'') None None None) = Inr processed"
    and len: "length processed = length ?commits"
    and recs: "map Inr processed =
                 map (\<lambda>raw. process_commit (dc_commit_processor example_collector) raw ''octo'' ''repo''
                               (case ri_html_url ?info of
                                  None \<Rightarrow> (case Some ''octo/repo'' of None \<Rightarrow> [] | Some u \<Rightarrow> u)
                                | Some u \<Rightarrow> u)
                               ''develop'' (detail_for (dc_github example_collector) ''octo'' ''repo'' raw))
                     ?commits"
    using detail_failure_tolerated [OF parse_examples(1) resolve_example info listing flag] by blast
  have shas: "map (\<lambda>r. case r of Inr c \<Rightarrow> commit_sha c | Inl e \<Rightarrow> [])
                (map Inr processed :: (exn + CommitData) list)
                = [''c1'', ''c2'', ''c3'', ''c4'', ''c5'']"
    by (subst recs)
       (simp add: process_commit_def detail_for_def example_collector_def example_github_def
          example_commit_def example_detail_def dict_truthy_def empty_commit_json_def Let_def)
  have files: "map (\<lambda>r. case r of Inr c \<Rightarrow> files_changed_count c | Inl e \<Rightarrow> 0)
                (map Inr processed :: (exn + CommitData) list)
                = [1, 1, 0, 1, 1]"
    by (subst recs)
       (simp add: process_commit_def detail_for_def example_collector_def example_github_def
          example_commit_def example_detail_def dict_truthy_def empty_commit_json_def
          process_file_changes_def Let_def)
  have totals: "map (\<lambda>r. case r of Inr c \<Rightarrow> total_changes c | Inl e \<Rightarrow> 0)
                (map Inr processed :: (exn + CommitData) list)
                = [15, 15, 0, 15, 15]"
    by (subst recs)
       (simp add: process_commit_def detail_for_def example_collector_def example_github_def
          example_commit_def example_detail_def dict_truthy_def empty_commit_json_def Let_def)
  show ?thesis
    using res len shas files totals by (auto simp: comp_def)
qed

lemma collect_loop_concat:
  "fst (collect_loop dc s gf rcs acc) = acc @ concat (map commits_of_outcome (repo_outcomes dc s gf rcs))"
proof (induction rcs arbitrary: s acc)
  case Nil
  show ?case by simp
next
  case (Cons rc rcs)
  obtain r s1 where one: "collect_one dc s gf rc = (r, s1)"
    by (cases "collect_one dc s gf rc")
  show ?case
  proof (cases r)
    case (Inl e)
    then show ?thesis using one Cons.IH [of "emit [Log ERROR] s1" acc]
      by (simp add: commits_of_outcome_def)
  next
    case (Inr commits)
    then show ?thesis using one Cons.IH [of s1 "acc @ commits"]
      by (simp add: commits_of_outcome_def)
  qed
qed

lemma repo_outcomes_length: "length (repo_outcomes dc s gf rcs) = length rcs"
proof (induction rcs arbitrary: s)
  case Nil
  show ?case by simp
next
  case (Cons rc rcs)
  obtain r s1 where one: "collect_one dc s gf rc = (r, s1)"
    by (cases "collect_one dc s gf rc")
  show ?case using one Cons.IH by (cases r) simp_all
qed

text \<open>
  Claim C4. \<open>collect_multiple_repositories\<close> never raises: its result is the concatenation,
  in configuration order, of the commits of the repositories whose collection succeeded;
  a repository whose collection raises contributes nothing and the loop goes on.
\<close>

theorem collect_multiple_resilient:
  "fst (collect_multiple_repositories dc s repos_config global_filters) =
     Inr (concat (map commits_of_outcome
                    (repo_outcomes dc s (case global_filters of None \<Rightarrow> Map.empty | Some g \<Rightarrow> g)
                       repos_config)))
   \<and> length (repo_outcomes dc s (case global_filters of None \<Rightarrow> Map.empty | Some g \<Rightarrow> g) repos_config)
       = length repos_config"
proof -
  obtain all_commits s1 where
    loop: "collect_loop dc s (case global_filters of None \<Rightarrow> Map.empty | Some g \<Rightarrow> g) repos_config []
             = (all_commits, s1)"
    by (cases "collect_loop dc s (case global_filters of None \<Rightarrow> Map.empty | Some g \<Rightarrow> g) repos_config []")
  then have "all_commits = concat (map commits_of_outcome
                    (repo_outcomes dc s (case global_filters of None \<Rightarrow> Map.empty | Some g \<Rightarrow> g)
                       repos_config))"
    using collect_loop_concat [of dc s "case global_filters of None \<Rightarrow> Map.empty | Some g \<Rightarrow> g"
                                 repos_config "[]"]
    by simp
  then show ?thesis using loop by (simp add: collect_multiple_repositories_def repo_outcomes_length)
qed

lemma example_collector_fields:
  "dc_github example_collector = example_github"
  "dc_commit_processor example_collector = example_processor"
  "fetch_detailed_commits example_collector"
  "auto_detect_branch example_collector"
  by (simp_all add: example_collector_def)

lemma example_github_fields:
  "repository_info_of example_github owner repo =
     (if repo = ''unreachable'' then Inl (RetryError ConnectionError)
      else Inr \<lparr> ri_default_branch = (if repo = ''bare'' then None else Some ''develop''),
                 ri_html_url = None \<rparr>)"
  "commits_of example_github owner repo b since until author per_page =
     (if repo = ''broken'' \<or> repo = ''empty'' then Inl (RetryError (HTTPError 500))
      else if repo = ''legacy'' then (if b = ''master'' then Inr [example_commit ''c1'']
                                     else Inl (RetryError (HTTPError 404)))
      else if b = [] \<or> b = ''develop'' \<or> b = ''master''
      then Inr (map example_commit [''c1'', ''c2'', ''c3'', ''c4'', ''c5''])
      else Inl (RetryError (HTTPError 404)))"
  "commit_details_of example_github owner repo sha =
     (if sha = ''c3'' then Inl (RetryError Timeout) else Inr (example_detail sha))"
  by (simp_all add: example_github_def)

lemma example_commit_sha [simp]:
  "cj_sha (example_commit sha) = Some sha" "cj_sha (example_detail sha) = Some sha"
  "dict_truthy (example_detail sha)" "example_commit sha \<noteq> example_commit sha' \<or> sha = sha'"
  by (auto simp: example_commit_def example_detail_def dict_truthy_def empty_commit_json_def)

lemmas collector_eval =
  collect_one_def collect_repository_commits_def collect_repository_commits_body_def parse_examples
  resolve_branch_def example_collector_fields example_github_fields initial_state_def dict_get_def
  detect_default_branch_def get_branch_with_fallback_def try_preferred_def validate_branch_def
  cache_key_def truthy_def Let_def example_repos_def

lemma outcomes_example:
  "map (\<lambda>r. case r of Inl e \<Rightarrow> Inl e | Inr commits \<Rightarrow> Inr (map commit_sha commits))
     (repo_outcomes example_collector initial_state Map.empty example_repos)
   = [Inr [''c1'', ''c2'', ''c3'', ''c4'', ''c5''], Inl (RetryError (HTTPError 500)), Inr [''c1'']]"
  apply (simp add: collector_eval)
  apply (simp add: process_commit_def Let_def)
  done

lemma outcomes_example_shape:
  "\<exists>first third.
     repo_outcomes example_collector initial_state Map.empty example_repos
       = [Inr first, Inl (RetryError (HTTPError 500)), Inr third]
     \<and> map commit_sha first = [''c1'', ''c2'', ''c3'', ''c4'', ''c5'']
     \<and> map commit_sha third = [''c1'']"
proof -
  let ?f = "\<lambda>r :: exn + CommitData list.
              case r of Inl e \<Rightarrow> Inl e | Inr commits \<Rightarrow> (Inr (map commit_sha commits) :: exn + string list)"
  obtain x y z where
    os: "repo_outcomes example_collector initial_state Map.empty example_repos = [x, y, z]"
    and x: "?f x = Inr [''c1'', ''c2'', ''c3'', ''c4'', ''c5'']"
    and y: "?f y = Inl (RetryError (HTTPError 500))"
    and z: "?f z = Inr [''c1'']"
    using outcomes_example by (auto simp: map_eq_Cons_conv)
  obtain first where first: "x = Inr first" "map commit_sha first = [''c1'', ''c2'', ''c3'', ''c4'', ''c5'']"
    using x by (cases x) auto
  have y': "y = Inl (RetryError (HTTPError 500))"
    using y by (cases y) auto
  obtain third where third: "z = Inr third" "map commit_sha third = [''c1'']"
    using z by (cases z) auto
  show ?thesis using os first y' third by simp
qed

text \<open>
  Three repositories, the second raises: the result holds the five commits of the first
  and the one commit of the third.
\<close>

theorem collect_multiple_resilient_witness:
  "\<exists>commits.
     fst (collect_multiple_repositories example_collector initial_state example_repos None) = Inr commits
     \<and> map commit_sha commits = [''c1'', ''c2'', ''c3'', ''c4'', ''c5'', ''c1'']"
proof -
  obtain first third where
    shape: "repo_outcomes example_collector initial_state Map.empty example_repos
              = [Inr first, Inl (RetryError (HTTPError 500)), Inr third]"
    and shas: "map commit_sha first = [''c1'', ''c2'', ''c3'', ''c4'', ''c5'']"
              "map commit_sha third = [''c1'']"
    using outcomes_example_shape by auto
  have "fst (collect_multiple_repositories example_collector initial_state example_repos None)
          = Inr (first @ third)"
    using collect_multiple_resilient [of example_collector initial_state example_repos None] shape
    by (simp add: commits_of_outcome_def)
  then show ?thesis using shas by simp
qed

section \<open>Properties of config_manager.py and main.py\<close>

lemma network_activity_simps [simp]:
  "network_activity [] = []"
  "network_activity (Call c # tr) = c # network_activity tr"
  "network_activity (Log l # tr) = network_activity tr"
  "network_activity (xs @ ys) = network_activity xs @ network_activity ys"
  by (simp_all add: network_activity_def)

lemma validate_config_quiet: "network_activity (snd (validate_config env)) = []"
  by (simp add: validate_config_def split: sum.splits)

lemma validate_config_empty:
  "load_repositories env = Inr [] \<Longrightarrow> truthy (env_github_token env) \<Longrightarrow>
     validate_config env = (Inr True, [Log WARNING])"
  by (auto simp: validate_config_def get_github_token_def truthy_def split: option.splits)

lemma main_test_connection:
  "arg_test_connection args \<Longrightarrow> validate_config env = (Inr v, tr) \<Longrightarrow> env_api_config env = Inr c \<Longrightarrow>
     main args env gh proc up finish
       = (if connection_ok gh then (0, tr @ [Call TestConnection])
          else (1, tr @ [Call TestConnection, Log ERROR]))"
  by (auto simp: main_def validate_config_def split: sum.splits)

text \<open>
  Claim C9, as the code has it. When no repository is configured (no \<open>--repo\<close> argument and
  an empty list of enabled repositories) and the run is not a \<open>--test-connection\<close> run,
  \<open>main\<close> logs an error and ends with exit status 1: its trace is what \<open>validate_config\<close>
  logged followed by the error record, and the run has made no client call. The abort is
  the check in \<open>main\<close>, after the client, the team mapper and the collector are built (or
  an earlier error of the start-up, which ends the run the same way); \<open>validate_config\<close>
  only logs a warning for the empty list and returns \<open>True\<close>. In a \<open>--test-connection\<close>
  run whose configuration is valid the connection test is made first, whatever the
  repositories, and it alone decides the exit status: 0 when it passes, 1 with an error
  record when it fails.
\<close>

theorem zero_repositories_abort:
  assumes "\<not> truthy (arg_repo args)" and "load_repositories env = Inr []"
  shows "(\<not> arg_test_connection args \<longrightarrow>
            main args env gh proc up finish = (1, snd (validate_config env) @ [Log ERROR])
            \<and> Log ERROR \<in> set (snd (main args env gh proc up finish))
            \<and> network_activity (snd (main args env gh proc up finish)) = [])
         \<and> (truthy (env_github_token env) \<longrightarrow> validate_config env = (Inr True, [Log WARNING]))
         \<and> (arg_test_connection args \<and> truthy (env_github_token env) \<and> env_api_config env = Inr c \<longrightarrow>
              main args env gh proc up finish
                = (if connection_ok gh then (0, [Log WARNING, Call TestConnection])
                   else (1, [Log WARNING, Call TestConnection, Log ERROR]))
              \<and> network_activity (snd (main args env gh proc up finish)) = [TestConnection])"
proof -
  obtain r tr where v: "validate_config env = (r, tr)"
    by (cases "validate_config env")
  have quiet: "network_activity tr = []"
    using validate_config_quiet [of env] v by simp
  have repos: "determine_repositories args env = Inr []"
    using assms by (simp add: determine_repositories_def)
  have abort: "main args env gh proc up finish = (1, snd (validate_config env) @ [Log ERROR])"
    if "\<not> arg_test_connection args"
    using v repos assms(1) that by (auto simp: main_def split: sum.splits)
  have a: "\<not> arg_test_connection args \<longrightarrow>
            main args env gh proc up finish = (1, snd (validate_config env) @ [Log ERROR])
            \<and> Log ERROR \<in> set (snd (main args env gh proc up finish))
            \<and> network_activity (snd (main args env gh proc up finish)) = []"
    using abort v quiet by simp
  have b: "truthy (env_github_token env) \<longrightarrow> validate_config env = (Inr True, [Log WARNING])"
    using assms(2) by (simp add: validate_config_empty)
  have t: "arg_test_connection args \<and> truthy (env_github_token env) \<and> env_api_config env = Inr c \<longrightarrow>
              main args env gh proc up finish
                = (if connection_ok gh then (0, [Log WARNING, Call TestConnection])
                   else (1, [Log WARNING, Call TestConnection, Log ERROR]))
              \<and> network_activity (snd (main args env gh proc up finish)) = [TestConnection]"
  proof (intro impI, elim conjE)
    assume tc: "arg_test_connection args" and tok: "truthy (env_github_token env)"
      and api: "env_api_config env = Inr c"
    have vc: "validate_config env = (Inr True, [Log WARNING])"
      using assms(2) tok by (rule validate_config_empty)
    have m: "main args env gh proc up finish
               = (if connection_ok gh then (0, [Log WARNING] @ [Call TestConnection])
                  else (1, [Log WARNING] @ [Call TestConnection, Log ERROR]))"
      using tc vc api by (rule main_test_connection)
    show "main args env gh proc up finish
                = (if connection_ok gh then (0, [Log WARNING, Call TestConnection])
                   else (1, [Log WARNING, Call TestConnection, Log ERROR]))
              \<and> network_activity (snd (main args env gh proc up finish)) = [TestConnection]"
      using m by simp
  qed
  show ?thesis using a b t by blast
qed

text \<open>
  With a token, a repository file that lists no repository and no \<open>--repo\<close> argument: the
  plain run logs the warning of \<open>validate_config\<close> and the error of \<open>main\<close>, ends with exit
  status 1 and calls no client method; the \<open>--test-connection\<close> run makes the connection
  test, which passes on the example service.
\<close>

theorem zero_repositories_abort_witness:
  "main (example_args False) example_env example_github (\<lambda>tm. example_processor) (\<lambda>url. []) (\<lambda>commits. None)
     = (1, [Log WARNING, Log ERROR])
   \<and> network_activity (snd (main (example_args False) example_env example_github (\<lambda>tm. example_processor)
                                (\<lambda>url. []) (\<lambda>commits. None))) = []
   \<and> validate_config example_env = (Inr True, [Log WARNING])
   \<and> fst (main (example_args True) example_env example_github (\<lambda>tm. example_processor) (\<lambda>url. [])
             (\<lambda>commits. None)) = 0"
proof -
  have a: "\<not> truthy (arg_repo (example_args False))" "\<not> arg_test_connection (example_args False)"
          "\<not> truthy (arg_repo (example_args True))" "arg_test_connection (example_args True)"
    by (simp_all add: example_args_def truthy_def)
  have b: "load_repositories example_env = Inr []"
    by (simp add: load_repositories_def load_yaml_config_def example_env_def)
  have c: "truthy (env_github_token example_env)" "env_api_config example_env = Inr (example_client 3)"
    by (simp_all add: example_env_def truthy_def)
  show ?thesis
    using zero_repositories_abort [OF a(1) b, where c = "example_client 3" and gh = example_github
            and proc = "\<lambda>tm. example_processor" and up = "\<lambda>url. []" and finish = "\<lambda>commits. None"]
          zero_repositories_abort [OF a(3) b, where c = "example_client 3" and gh = example_github
            and proc = "\<lambda>tm. example_processor" and up = "\<lambda>url. []" and finish = "\<lambda>commits. None"]
          a c
    by (simp add: example_github_def)
qed

text \<open>
  The claim as the specification words it fails for a \<open>--test-connection\<close> run: with no
  repository configured the connection test is still made, and when it passes the run
  ends with exit status 0.
\<close>

theorem zero_repositories_abort_counterexample:
  "load_repositories example_env = Inr []
   \<and> \<not> truthy (arg_repo (example_args True))
   \<and> main (example_args True) example_env example_github (\<lambda>tm. example_processor) (\<lambda>url. []) (\<lambda>commits. None)
       = (0, [Log WARNING, Call TestConnection])
   \<and> network_activity (snd (main (example_args True) example_env example_github (\<lambda>tm. example_processor)
                                (\<lambda>url. []) (\<lambda>commits. None))) = [TestConnection]"
  by (simp add: main_def validate_config_def get_github_token_def load_repositories_def load_yaml_config_def
        example_env_def example_args_def example_github_def truthy_def)

end
